theory Spec2Isabelle
  imports Main
begin

section \<open>Errors\<close>

text \<open>The exceptions that the modelled code can raise, as values.\<close>

datatype py_error = KeyError | IndexError | ValueError | OverflowError

section \<open>Timestamps\<close>

text \<open>
  A naive \<^verbatim>\<open>datetime\<close> is modelled by its position on the time line: the number of
  microseconds since 0001-01-01T00:00:00. The values of \<^verbatim>\<open>datetime\<close> run from there to
  9999-12-31T23:59:59.999999. Comparison of datetimes is comparison of these numbers.
\<close>

type_synonym datetime = int

definition us_per_day :: int where
  "us_per_day = 86400000000"

definition MAXORDINAL :: int where
  "MAXORDINAL = 3652059"

definition valid_datetime :: "datetime \<Rightarrow> bool" where
  "valid_datetime t = (0 \<le> t \<and> t < MAXORDINAL * us_per_day)"

text \<open>
  \<^verbatim>\<open>timedelta(days=d)\<close>, in microseconds: Python raises \<^verbatim>\<open>OverflowError\<close> for more than
  999999999 days in either direction.
\<close>

definition timedelta_days :: "int \<Rightarrow> py_error + int" where
  "timedelta_days d =
     (if d < - 999999999 \<or> 999999999 < d then Inl OverflowError else Inr (d * us_per_day))"

text \<open>
  \<^verbatim>\<open>dt - delta\<close> for a datetime and a timedelta: Python raises \<^verbatim>\<open>OverflowError\<close> when
  the result is not a value of \<^verbatim>\<open>datetime\<close>.
\<close>

definition datetime_sub :: "datetime \<Rightarrow> int \<Rightarrow> py_error + datetime" where
  "datetime_sub dt delta =
     (if valid_datetime (dt - delta) then Inr (dt - delta) else Inl OverflowError)"

section \<open>ISO text of a timestamp\<close>

text \<open>
  \<^verbatim>\<open>datetime_to_str\<close> is \<^verbatim>\<open>dt.isoformat()\<close> and \<^verbatim>\<open>datetime_from_str\<close> is
  \<^verbatim>\<open>datetime.fromisoformat(s)\<close>. Both belong to Python's library; they are modelled
  here on the proleptic Gregorian calendar that the library uses, with the library's
  own conversion between a day number (1 for 0001-01-01) and year, month, day.
\<close>

definition is_leap :: "int \<Rightarrow> bool" where
  "is_leap year = (year mod 4 = 0 \<and> (year mod 100 \<noteq> 0 \<or> year mod 400 = 0))"

definition days_before_year :: "int \<Rightarrow> int" where
  "days_before_year year =
     (let y = year - 1 in y * 365 + y div 4 - y div 100 + y div 400)"

definition DAYS_IN_MONTH :: "int list" where
  "DAYS_IN_MONTH = [-1, 31, 28, 31, 30, 31, 30, 31, 31, 30, 31, 30, 31]"

definition DAYS_BEFORE_MONTH :: "int list" where
  "DAYS_BEFORE_MONTH = [-1, 0, 31, 59, 90, 120, 151, 181, 212, 243, 273, 304, 334]"

definition days_in_month :: "int \<Rightarrow> int \<Rightarrow> int" where
  "days_in_month year month =
     (if month = 2 \<and> is_leap year then 29 else DAYS_IN_MONTH ! nat month)"

definition days_before_month :: "int \<Rightarrow> int \<Rightarrow> int" where
  "days_before_month year month =
     DAYS_BEFORE_MONTH ! nat month + (if month > 2 \<and> is_leap year then 1 else 0)"

definition ymd2ord :: "int \<Rightarrow> int \<Rightarrow> int \<Rightarrow> int" where
  "ymd2ord year month day = days_before_year year + days_before_month year month + day"

text \<open>
  The month and the day of the month from the day of the year \<open>n\<close> (0 for the first of
  January): an estimate of the month that is either right or one too large, corrected
  by the table.
\<close>

definition month_and_day :: "bool \<Rightarrow> int \<Rightarrow> int \<times> int" where
  "month_and_day leapyear n =
     (let month = (n + 50) div 32;
          preceding = DAYS_BEFORE_MONTH ! nat month
                        + (if month > 2 \<and> leapyear then 1 else 0)
      in if preceding > n
         then (let month' = month - 1;
                   preceding' = preceding - (DAYS_IN_MONTH ! nat month'
                                  + (if month' = 2 \<and> leapyear then 1 else 0))
               in (month', n - preceding' + 1))
         else (month, n - preceding + 1))"

definition ord2ymd :: "int \<Rightarrow> int \<times> int \<times> int" where
  "ord2ymd ordinal =
     (let n0 = ordinal - 1;
          n400 = n0 div 146097; r1 = n0 mod 146097;
          n100 = r1 div 36524; r2 = r1 mod 36524;
          n4 = r2 div 1461; r3 = r2 mod 1461;
          n1 = r3 div 365; n = r3 mod 365;
          year = n400 * 400 + 1 + n100 * 100 + n4 * 4 + n1
      in if n1 = 4 \<or> n100 = 4 then (year - 1, 12, 31)
         else (case month_and_day (n1 = 3 \<and> (n4 \<noteq> 24 \<or> n100 = 3)) n of
                 (month, day) \<Rightarrow> (year, month, day)))"

text \<open>Decimal digits: \<^verbatim>\<open>"%0wd" % n\<close> for \<open>0 \<le> n < 10 ^ w\<close>, and reading them back.\<close>

definition digit_char :: "nat \<Rightarrow> char" where
  "digit_char n = char_of (48 + n)"

fun zero_padded :: "nat \<Rightarrow> int \<Rightarrow> string" where
  "zero_padded 0 n = []"
| "zero_padded (Suc w) n = zero_padded w (n div 10) @ [digit_char (nat (n mod 10))]"

definition is_digit :: "char \<Rightarrow> bool" where
  "is_digit c = (48 \<le> (of_char c :: nat) \<and> (of_char c :: nat) \<le> 57)"

fun parse_digits :: "string \<Rightarrow> int \<Rightarrow> int option" where
  "parse_digits [] acc = Some acc"
| "parse_digits (c # cs) acc =
     (if is_digit c then parse_digits cs (acc * 10 + (int (of_char c) - 48)) else None)"

definition datetime_to_str :: "datetime \<Rightarrow> string" where
  "datetime_to_str dt =
     (let (year, month, day) = ord2ymd (dt div us_per_day + 1);
          tod = dt mod us_per_day;
          hour = tod div 3600000000;
          minute = tod div 60000000 mod 60;
          second = tod div 1000000 mod 60;
          microsecond = tod mod 1000000
      in zero_padded 4 year @ ''-'' @ zero_padded 2 month @ ''-'' @ zero_padded 2 day
         @ ''T'' @ zero_padded 2 hour @ '':'' @ zero_padded 2 minute
         @ '':'' @ zero_padded 2 second
         @ (if microsecond = 0 then [] else ''.'' @ zero_padded 6 microsecond))"

text \<open>
  Reading covers the texts \<^verbatim>\<open>YYYY-MM-DD[?HH[:MM[:SS[.fff[fff]]]]]\<close>, where \<^verbatim>\<open>?\<close> is any
  one character: a date alone, or a date and a time that may stop after the hours, the
  minutes or the seconds, or carry three or six digits of a fraction. These include
  the two layouts that \<^verbatim>\<open>isoformat\<close> writes for a naive datetime. A field that the text
  does not reach is read from empty text and is 0. The other layouts that newer
  versions of \<^verbatim>\<open>fromisoformat\<close> read (dates without dashes, week dates, offsets from
  UTC) are a \<^verbatim>\<open>ValueError\<close> here.
\<close>

definition datetime_from_str :: "string \<Rightarrow> py_error + datetime" where
  "datetime_from_str s =
     (if length s \<notin> {10, 13, 16, 19, 23, 26}
         \<or> s ! 4 \<noteq> CHR ''-'' \<or> s ! 7 \<noteq> CHR ''-''
         \<or> (16 \<le> length s \<and> s ! 13 \<noteq> CHR '':'')
         \<or> (19 \<le> length s \<and> s ! 16 \<noteq> CHR '':'')
         \<or> (23 \<le> length s \<and> s ! 19 \<noteq> CHR ''.'')
      then Inl ValueError
      else
        (case (parse_digits (take 4 s) 0, parse_digits (take 2 (drop 5 s)) 0,
               parse_digits (take 2 (drop 8 s)) 0, parse_digits (take 2 (drop 11 s)) 0,
               parse_digits (take 2 (drop 14 s)) 0, parse_digits (take 2 (drop 17 s)) 0,
               parse_digits (drop 20 s) 0) of
           (Some year, Some month, Some day, Some hour, Some minute, Some second,
            Some fraction) \<Rightarrow>
             if 1 \<le> year \<and> 1 \<le> month \<and> month \<le> 12
                \<and> 1 \<le> day \<and> day \<le> days_in_month year month
                \<and> hour \<le> 23 \<and> minute \<le> 59 \<and> second \<le> 59
             then Inr ((ymd2ord year month day - 1) * us_per_day
                       + hour * 3600000000 + minute * 60000000 + second * 1000000
                       + (if length s = 23 then fraction * 1000 else fraction))
             else Inl ValueError
         | _ \<Rightarrow> Inl ValueError))"

section \<open>The habit\<close>

text \<open>
  The attributes of \<^verbatim>\<open>Habit\<close>. The periodicity is a Python tuple, here the list of
  its components; \<^verbatim>\<open>frequency\<close> and \<^verbatim>\<open>period\<close> are attributes of their own, set from
  its first two components.
\<close>

record habit =
  habit_id :: int
  name :: string
  periodicity :: "int list"
  frequency :: int
  period :: int
  history :: "datetime list"
  streak :: int
  longest_streak :: int
  creation :: datetime

section \<open>The streak engine\<close>

text \<open>
  The \<^verbatim>\<open>while True\<close> loop of \<^verbatim>\<open>Habit.update_streak\<close>. The loop has no bound of its
  own, so it is a partial function: \<open>None\<close> stands for a loop that never leaves. The
  loop is left with the count, by \<^verbatim>\<open>break\<close>, or with the \<^verbatim>\<open>OverflowError\<close> of the
  subtraction that moves the window.
\<close>

partial_function (option) streak_loop ::
  "datetime list \<Rightarrow> int \<Rightarrow> int \<Rightarrow> int \<Rightarrow> datetime \<Rightarrow> datetime \<Rightarrow> (py_error + int) option" where
  "streak_loop hist freq period_length count end_period start_period =
     (if freq \<le> int (length (filter (\<lambda>dt. start_period \<le> dt \<and> dt \<le> end_period) hist))
      then (case datetime_sub start_period period_length of
              Inl e \<Rightarrow> Some (Inl e)
            | Inr start_period' \<Rightarrow>
                streak_loop hist freq period_length (count + 1) start_period start_period')
      else Some (Inr count))"

declare streak_loop.simps [code]

text \<open>The choice of the reference point, from the latest check-in and the optional argument.\<close>

definition reference_point :: "datetime \<Rightarrow> datetime option \<Rightarrow> datetime" where
  "reference_point last_checkin update_time =
     (case update_time of
        None \<Rightarrow> last_checkin
      | Some u \<Rightarrow> if u < last_checkin then u else last_checkin)"

text \<open>The last three lines of \<^verbatim>\<open>update_streak\<close>: store the count, raise the record.\<close>

definition store_streak :: "habit \<Rightarrow> int \<Rightarrow> habit" where
  "store_streak self count =
     (if count > longest_streak self
      then self\<lparr>streak := count, longest_streak := count\<rparr>
      else self\<lparr>streak := count\<rparr>)"

text \<open>
  \<^verbatim>\<open>Habit.update_streak\<close>. The result is the habit as the call leaves it when the call
  returns, and the exception when it raises; an exception comes before any attribute
  is assigned, so the habit is then as it was.
\<close>

definition update_streak :: "habit \<Rightarrow> datetime option \<Rightarrow> (py_error + habit) option" where
  "update_streak self update_time =
     (case history self of
        [] \<Rightarrow> Some (Inr (self\<lparr>streak := 0\<rparr>))
      | x # xs \<Rightarrow>
          (let last_checkin = fold max xs x;
               reference = reference_point last_checkin update_time
           in case timedelta_days (period self) of
                Inl e \<Rightarrow> Some (Inl e)
              | Inr period_length \<Rightarrow>
                  (case datetime_sub reference period_length of
                     Inl e \<Rightarrow> Some (Inl e)
                   | Inr start_period \<Rightarrow>
                       map_option (map_sum id (store_streak self))
                         (streak_loop (history self) (frequency self) period_length 0
                            reference start_period))))"

section \<open>Creating habits and recording check-ins\<close>

text \<open>
  \<^verbatim>\<open>Habit.__init__\<close>. The class attribute \<^verbatim>\<open>_id_counter\<close> is state shared by all
  habits: the constructor takes its value and returns the new one, also when the
  constructor raises afterwards. \<open>today\<close> is what \<^verbatim>\<open>datetime.today()\<close> returns.
\<close>

definition Habit_init ::
  "int \<Rightarrow> datetime \<Rightarrow> string \<Rightarrow> int list \<Rightarrow> datetime option \<Rightarrow> int option
     \<Rightarrow> (py_error + habit) \<times> int" where
  "Habit_init id_counter today nm pty creation_arg habit_id_arg =
     (let (hid, id_counter') =
            (case habit_id_arg of
               None \<Rightarrow> (id_counter, id_counter + 1)
             | Some i \<Rightarrow> (i, if i \<ge> id_counter then i + 1 else id_counter))
      in if length pty < 2 then (Inl IndexError, id_counter')
         else (Inr \<lparr>habit_id = hid, name = nm, periodicity = pty,
                     frequency = pty ! 0, period = pty ! 1,
                     history = [], streak = 0, longest_streak = 0,
                     creation = (case creation_arg of None \<Rightarrow> today | Some c \<Rightarrow> c)\<rparr>,
               id_counter'))"

definition check_in :: "datetime \<Rightarrow> habit \<Rightarrow> datetime option \<Rightarrow> habit" where
  "check_in today self checkin_datetime =
     self\<lparr>history :=
            sort (history self @ [case checkin_datetime of None \<Rightarrow> today | Some d \<Rightarrow> d])\<rparr>"

section \<open>The owner and the persisted document\<close>

record user =
  user_id :: int
  user_name :: string
  habits :: "habit list"

text \<open>
  The dictionaries that \<^verbatim>\<open>to_dict\<close> builds and \<^verbatim>\<open>from_dict\<close> reads, one field per
  key; \<open>None\<close> is a key that the dictionary does not have.
\<close>

record habit_doc =
  doc_habit_id :: "int option"
  doc_name :: "string option"
  doc_periodicity :: "int list option"
  doc_history :: "string list option"
  doc_streak :: "int option"
  doc_longest_streak :: "int option"
  doc_creation :: "string option"

record user_doc =
  doc_user_id :: "int option"
  doc_user_name :: "string option"
  doc_habits :: "habit_doc list option"

definition Habit_to_dict :: "habit \<Rightarrow> habit_doc" where
  "Habit_to_dict self =
     \<lparr>doc_habit_id = Some (habit_id self),
      doc_name = Some (name self),
      doc_periodicity = Some (periodicity self),
      doc_history = Some (map datetime_to_str (history self)),
      doc_streak = Some (streak self),
      doc_longest_streak = Some (longest_streak self),
      doc_creation = Some (datetime_to_str (creation self))\<rparr>"

text \<open>\<^verbatim>\<open>[datetime_from_str(s) for s in ...]\<close>: the first string that fails ends the loop.\<close>

fun parse_history :: "string list \<Rightarrow> py_error + datetime list" where
  "parse_history [] = Inr []"
| "parse_history (s # ss) =
     (case datetime_from_str s of
        Inl e \<Rightarrow> Inl e
      | Inr d \<Rightarrow> (case parse_history ss of Inl e \<Rightarrow> Inl e | Inr ds \<Rightarrow> Inr (d # ds)))"

text \<open>
  \<^verbatim>\<open>Habit.from_dict\<close>. The arguments of the constructor are evaluated in the order
  name, periodicity, creation, habit_id; the history is read after the constructor has
  run, so an error there leaves the counter advanced.
\<close>

definition Habit_from_dict ::
  "int \<Rightarrow> datetime \<Rightarrow> habit_doc \<Rightarrow> (py_error + habit) \<times> int" where
  "Habit_from_dict id_counter today data =
     (case doc_name data of None \<Rightarrow> (Inl KeyError, id_counter) | Some nm \<Rightarrow>
      case doc_periodicity data of None \<Rightarrow> (Inl KeyError, id_counter) | Some pty \<Rightarrow>
      case doc_creation data of None \<Rightarrow> (Inl KeyError, id_counter) | Some cs \<Rightarrow>
      case datetime_from_str cs of Inl e \<Rightarrow> (Inl e, id_counter) | Inr cr \<Rightarrow>
      case doc_habit_id data of None \<Rightarrow> (Inl KeyError, id_counter) | Some hid \<Rightarrow>
      case Habit_init id_counter today nm pty (Some cr) (Some hid) of
        (Inl e, id_counter') \<Rightarrow> (Inl e, id_counter')
      | (Inr habit, id_counter') \<Rightarrow>
          (case parse_history (case doc_history data of None \<Rightarrow> [] | Some ss \<Rightarrow> ss) of
             Inl e \<Rightarrow> (Inl e, id_counter')
           | Inr hist \<Rightarrow>
               (Inr (habit\<lparr>history := hist,
                           streak := (case doc_streak data of None \<Rightarrow> 0 | Some n \<Rightarrow> n),
                           longest_streak :=
                             (case doc_longest_streak data of None \<Rightarrow> 0 | Some n \<Rightarrow> n)\<rparr>),
                id_counter')))"

definition User_to_dict :: "user \<Rightarrow> user_doc" where
  "User_to_dict self =
     \<lparr>doc_user_id = Some (user_id self),
      doc_user_name = Some (user_name self),
      doc_habits = Some (map Habit_to_dict (habits self))\<rparr>"

text \<open>\<^verbatim>\<open>[Habit.from_dict(h) for h in ...]\<close>, with the counter passed from habit to habit.\<close>

fun habits_from_dicts ::
  "int \<Rightarrow> datetime \<Rightarrow> habit_doc list \<Rightarrow> (py_error + habit list) \<times> int" where
  "habits_from_dicts id_counter today [] = (Inr [], id_counter)"
| "habits_from_dicts id_counter today (d # ds) =
     (case Habit_from_dict id_counter today d of
        (Inl e, c1) \<Rightarrow> (Inl e, c1)
      | (Inr h, c1) \<Rightarrow>
          (case habits_from_dicts c1 today ds of
             (Inl e, c2) \<Rightarrow> (Inl e, c2)
           | (Inr hs, c2) \<Rightarrow> (Inr (h # hs), c2)))"

definition User_from_dict ::
  "int \<Rightarrow> datetime \<Rightarrow> user_doc \<Rightarrow> (py_error + user) \<times> int" where
  "User_from_dict id_counter today data =
     (case habits_from_dicts id_counter today
             (case doc_habits data of None \<Rightarrow> [] | Some ds \<Rightarrow> ds) of
        (Inl e, c) \<Rightarrow> (Inl e, c)
      | (Inr hs, c) \<Rightarrow>
          (case doc_user_name data of
             None \<Rightarrow> (Inl KeyError, c)
           | Some nm \<Rightarrow>
               (Inr \<lparr>user_id = (case doc_user_id data of None \<Rightarrow> 0 | Some i \<Rightarrow> i),
                     user_name = nm, habits = hs\<rparr>, c)))"

section \<open>Analytics\<close>

text \<open>
  \<^verbatim>\<open>analytics_longest_streak_for_habit\<close>. The loop over the habits stops at the first
  habit with the identifier, recomputes its streak in place and returns its longest
  streak; Python's \<^verbatim>\<open>None\<close> for "no such habit" is the \<open>None\<close> beside the owner. An
  exception of the recomputation leaves the function as it is. The outer option is
  \<open>None\<close> when the recomputation does not return.
\<close>

fun longest_streak_in ::
  "habit list \<Rightarrow> int \<Rightarrow> (py_error + int option \<times> habit list) option" where
  "longest_streak_in [] hid = Some (Inr (None, []))"
| "longest_streak_in (h # hs) hid =
     (if habit_id h = hid
      then map_option (map_sum id (\<lambda>h'. (Some (longest_streak h'), h' # hs)))
             (update_streak h None)
      else map_option (map_sum id (\<lambda>(r, hs'). (r, h # hs'))) (longest_streak_in hs hid))"

definition analytics_longest_streak_for_habit ::
  "user \<Rightarrow> int \<Rightarrow> (py_error + int option \<times> user) option" where
  "analytics_longest_streak_for_habit usr hid =
     map_option (map_sum id (\<lambda>(r, hs). (r, usr\<lparr>habits := hs\<rparr>)))
       (longest_streak_in (habits usr) hid)"

section \<open>The test data\<close>

text \<open>
  The habit "Exercise" of \<^verbatim>\<open>generate_test_data\<close>: a daily habit checked in on each of
  28 days from \<open>start_date\<close>, except every seventh. \<^verbatim>\<open>start_date + timedelta(days=i)\<close>
  is \<open>i\<close> days after the start date; the sums are datetimes when the start date and its
  27th day are.
\<close>

definition exercise_checkins :: "datetime \<Rightarrow> datetime \<Rightarrow> habit \<Rightarrow> habit" where
  "exercise_checkins today start_date habit2 =
     fold (\<lambda>i h. if i mod 7 \<noteq> 0
                  then check_in today h (Some (start_date + i * us_per_day)) else h)
          (map int [0..<28]) habit2"

text \<open>
  The habit "Read Book" of \<^verbatim>\<open>generate_test_data\<close>: three check-ins in each of four
  weeks.
\<close>

definition read_book_checkins :: "datetime \<Rightarrow> datetime \<Rightarrow> habit \<Rightarrow> habit" where
  "read_book_checkins today start_date habit4 =
     fold (\<lambda>week h.
             fold (\<lambda>j h'. check_in today h' (Some (start_date + (week * 7 + j) * us_per_day)))
                  (map int [0..<3]) h)
          (map int [0..<4]) habit4"

section \<open>Windows, as the specification describes them\<close>

text \<open>
  Window number \<open>k\<close> (counted from 0) of the backward walk from the anchor \<open>ref\<close> with
  period length \<open>P\<close> is the closed interval from \<open>ref - (k + 1) * P\<close> to \<open>ref - k * P\<close>.
  \<open>window_count\<close> is the number of check-ins in it, both bounds included, and the
  window is satisfied when that number reaches the frequency.
\<close>

definition window_count :: "datetime list \<Rightarrow> datetime \<Rightarrow> int \<Rightarrow> nat \<Rightarrow> nat" where
  "window_count hist ref P k =
     length (filter (\<lambda>t. ref - (int k + 1) * P \<le> t \<and> t \<le> ref - int k * P) hist)"

definition satisfied :: "datetime list \<Rightarrow> int \<Rightarrow> datetime \<Rightarrow> int \<Rightarrow> nat \<Rightarrow> bool" where
  "satisfied hist freq ref P k = (freq \<le> int (window_count hist ref P k))"

text \<open>
  The anchor of the walk in the words of the specification: the reference time when
  it is given and strictly earlier than the latest check-in, the latest check-in
  otherwise.
\<close>

definition anchor :: "datetime list \<Rightarrow> datetime option \<Rightarrow> datetime" where
  "anchor hist reference_time =
     (if reference_time \<noteq> None \<and> the reference_time < Max (set hist)
      then the reference_time else Max (set hist))"


text \<open>
  A series of constructor calls, each with its arguments (name, periodicity, creation,
  identifier), run one after the other on the shared counter. The result lists the
  outcome of each call and the counter after the last.
\<close>

fun constructor_calls ::
  "int \<Rightarrow> datetime \<Rightarrow> (string \<times> int list \<times> datetime option \<times> int option) list
     \<Rightarrow> (py_error + habit) list \<times> int" where
  "constructor_calls id_counter today [] = ([], id_counter)"
| "constructor_calls id_counter today ((nm, pty, cr, hid) # calls) =
     (case Habit_init id_counter today nm pty cr hid of
        (r, c1) \<Rightarrow>
          (case constructor_calls c1 today calls of (rs, c2) \<Rightarrow> (r # rs, c2)))"

text \<open>
  The number of check-in days after the most recent missed day, for the day numbers
  \<open>0, \<dots>, 27\<close> of which every seventh is missed.
\<close>

definition missed_day :: "int \<Rightarrow> bool" where
  "missed_day i = (i mod 7 = 0)"

definition days_after_last_miss :: nat where
  "days_after_last_miss = length (takeWhile (\<lambda>i. \<not> missed_day i) (rev (map int [0..<28])))"

text \<open>
  The habit of the unit test for daily streaks: three check-ins on consecutive days,
  from 2025-01-01T00:00:00.
\<close>

definition three_days :: habit where
  "three_days = \<lparr>habit_id = 0, name = ''Test Habit'', periodicity = [1, 1],
     frequency = 1, period = 1,
     history = [63871286400000000, 63871372800000000, 63871459200000000],
     streak = 0, longest_streak = 0, creation = 63871286400000000\<rparr>"

text \<open>The same habit with its three check-ins on the first three days of the time line.\<close>

definition first_days :: habit where
  "first_days = \<lparr>habit_id = 0, name = ''Test Habit'', periodicity = [1, 1],
     frequency = 1, period = 1, history = [0, 86400000000, 172800000000],
     streak = 0, longest_streak = 0, creation = 0\<rparr>"

text \<open>A habit to be done once in a million days, checked in on 2025-01-01 at noon.\<close>

definition long_period :: habit where
  "long_period = \<lparr>habit_id = 2, name = ''Rare'', periodicity = [1, 1000000],
     frequency = 1, period = 1000000, history = [63871329600000000],
     streak = 0, longest_streak = 0, creation = 63871329600000000\<rparr>"

text \<open>
  A habit whose periodicity has been edited to once in 0 days, checked in on 2025-01-01
  at noon, and its owner.
\<close>

definition zero_period :: habit where
  "zero_period = \<lparr>habit_id = 4, name = ''Now'', periodicity = [1, 0],
     frequency = 1, period = 0, history = [63871329600000000],
     streak = 0, longest_streak = 0, creation = 63871329600000000\<rparr>"

definition zero_period_user :: user where
  "zero_period_user = \<lparr>user_id = 0, user_name = ''Unit Test User'', habits = [zero_period]\<rparr>"

text \<open>The owner of the habit checked in on the first three days of the time line.\<close>

definition first_days_user :: user where
  "first_days_user = \<lparr>user_id = 0, user_name = ''Unit Test User'', habits = [first_days]\<rparr>"

text \<open>
  A habit to be done 3 times in 7 days, with three check-ins in each of four weeks from
  2025-01-01 at noon: on the days 4 to 6, 11 to 13, 18 to 20 and 21 to 23.
\<close>

definition late_in_week :: habit where
  "late_in_week = \<lparr>habit_id = 3, name = ''Read Book'', periodicity = [3, 7],
     frequency = 3, period = 7,
     history = map (\<lambda>d. 63871329600000000 + d * us_per_day)
                 [4, 5, 6, 11, 12, 13, 18, 19, 20, 21, 22, 23],
     streak = 0, longest_streak = 0, creation = 63871329600000000\<rparr>"

text \<open>A habit without check-ins, with a periodicity that is not positive.\<close>

definition no_checkins :: habit where
  "no_checkins = \<lparr>habit_id = 1, name = ''Idle'', periodicity = [0, -3],
     frequency = 0, period = -3, history = [], streak = 5, longest_streak = 9, creation = 0\<rparr>"


text \<open>The day numbers on which the habit "Exercise" of the test data is checked in.\<close>

definition exercise_days :: "int list" where
  "exercise_days = [1, 2, 3, 4, 5, 6, 8, 9, 10, 11, 12, 13, 15, 16, 17, 18, 19, 20,
                    22, 23, 24, 25, 26, 27]"

text \<open>
  The habit "Exercise" as \<^verbatim>\<open>Habit("Exercise", (1, 1))\<close> makes it on 2025-01-29 at noon,
  and the start date of the test data 28 days earlier.
\<close>

definition exercise_habit :: habit where
  "exercise_habit = \<lparr>habit_id = 1, name = ''Exercise'', periodicity = [1, 1],
     frequency = 1, period = 1, history = [], streak = 0, longest_streak = 0,
     creation = 63873748800000000\<rparr>"

definition exercise_start :: datetime where
  "exercise_start = 63871329600000000"

text \<open>An owner with two habits, for the analytics.\<close>

definition test_user :: user where
  "test_user = \<lparr>user_id = 0, user_name = ''Unit Test User'', habits = [no_checkins, three_days]\<rparr>"

text \<open>A persisted habit with the identifier 7, the habit it stands for, and its owner.\<close>

definition habit7_doc :: habit_doc where
  "habit7_doc = \<lparr>doc_habit_id = Some 7, doc_name = Some ''Read Book'',
     doc_periodicity = Some [3, 7], doc_history = Some [''2025-01-01T12:00:00''],
     doc_streak = Some 1, doc_longest_streak = Some 1,
     doc_creation = Some ''2025-01-01T12:00:00''\<rparr>"

definition habit7 :: habit where
  "habit7 = \<lparr>habit_id = 7, name = ''Read Book'', periodicity = [3, 7], frequency = 3,
     period = 7, history = [63871329600000000], streak = 1, longest_streak = 1,
     creation = 63871329600000000\<rparr>"

definition user7_doc :: user_doc where
  "user7_doc = \<lparr>doc_user_id = Some 0, doc_user_name = Some ''Ann'',
     doc_habits = Some [habit7_doc]\<rparr>"

text \<open>What \<^verbatim>\<open>Habit("New", (1, 1), creation)\<close> makes with the identifier \<open>i\<close>.\<close>

definition fresh_habit :: "int \<Rightarrow> habit" where
  "fresh_habit i = \<lparr>habit_id = i, name = ''New'', periodicity = [1, 1], frequency = 1,
     period = 1, history = [], streak = 0, longest_streak = 0, creation = 0\<rparr>"

text \<open>
  The habit with \<^verbatim>\<open>frequency\<close> and \<^verbatim>\<open>period\<close> set from its periodicity, as the
  constructor sets them.
\<close>

definition from_periodicity :: "habit \<Rightarrow> habit" where
  "from_periodicity h = h\<lparr>frequency := periodicity h ! 0, period := periodicity h ! 1\<rparr>"

text \<open>
  What every habit object satisfies: the constructor has read two components of its
  periodicity, and its timestamps are values of \<^verbatim>\<open>datetime\<close>.
\<close>

definition valid_habit :: "habit \<Rightarrow> bool" where
  "valid_habit h =
     (2 \<le> length (periodicity h) \<and> valid_datetime (creation h)
      \<and> list_all valid_datetime (history h))"

text \<open>The counter after the constructor has been given the identifier of \<open>h\<close>.\<close>

definition advance_counter :: "habit \<Rightarrow> int \<Rightarrow> int" where
  "advance_counter h id_counter = (if habit_id h \<ge> id_counter then habit_id h + 1 else id_counter)"

text \<open>The owner that the document \<open>user7_doc\<close> stands for.\<close>

definition owner7 :: user where
  "owner7 = \<lparr>user_id = 0, user_name = ''Ann'', habits = [habit7]\<rparr>"

section \<open>The backward walk\<close>

lemma satisfied_shift:
  "satisfied hist freq (ref - P) P k = satisfied hist freq ref P (Suc k)"
  by (simp add: satisfied_def window_count_def algebra_simps)

lemma satisfied_0:
  "satisfied hist freq ref P 0 =
     (freq \<le> int (length (filter (\<lambda>dt. ref - P \<le> dt \<and> dt \<le> ref) hist)))"
  by (simp add: satisfied_def window_count_def)

lemma datetime_sub_valid: "valid_datetime (t - d) \<Longrightarrow> datetime_sub t d = Inr (t - d)"
  by (simp add: datetime_sub_def)

lemma datetime_sub_overflow: "\<not> valid_datetime (t - d) \<Longrightarrow> datetime_sub t d = Inl OverflowError"
  by (simp add: datetime_sub_def)

lemma below_valid:
  "valid_datetime t \<Longrightarrow> 0 < d \<Longrightarrow> valid_datetime (t - d) = (0 \<le> t - d)"
  by (auto simp: valid_datetime_def)

lemma streak_loop_result:
  assumes P: "0 < P"
  shows "(\<forall>k<n. satisfied hist freq ref P k) \<Longrightarrow> \<not> satisfied hist freq ref P n \<Longrightarrow>
         valid_datetime (ref - P) \<Longrightarrow>
         streak_loop hist freq P c ref (ref - P)
           = Some (if 0 \<le> ref - (int n + 1) * P then Inr (c + int n) else Inl OverflowError)"
proof (induction n arbitrary: ref c)
  case 0
  have "0 \<le> ref - P" using "0.prems"(3) by (simp add: valid_datetime_def)
  with "0.prems"(2) show ?case
    by (subst streak_loop.simps) (simp add: satisfied_0)
next
  case (Suc n)
  have first: "satisfied hist freq ref P 0" using Suc.prems(1) by blast
  have rest: "\<forall>k<n. satisfied hist freq (ref - P) P k"
    using Suc.prems(1) by (simp add: satisfied_shift)
  have stop: "\<not> satisfied hist freq (ref - P) P n"
    using Suc.prems(2) by (simp add: satisfied_shift)
  have eq: "ref - P - (int n + 1) * P = ref - (int (Suc n) + 1) * P"
    by (simp add: algebra_simps)
  show ?case
  proof (cases "valid_datetime (ref - P - P)")
    case True
    have "streak_loop hist freq P (c + 1) (ref - P) (ref - P - P)
            = Some (if 0 \<le> ref - P - (int n + 1) * P then Inr (c + 1 + int n)
                    else Inl OverflowError)"
      by (rule Suc.IH [OF rest stop True])
    then show ?thesis
      using first
      by (subst streak_loop.simps) (simp add: satisfied_0 datetime_sub_valid [OF True] eq)
  next
    case False
    then have neg: "ref - P - P < 0"
      using below_valid [OF Suc.prems(3) P] by simp
    have "0 \<le> int n * P" using P by simp
    then have "ref - (int (Suc n) + 1) * P \<le> ref - P - P"
      by (simp add: algebra_simps)
    with neg have "\<not> 0 \<le> ref - (int (Suc n) + 1) * P" by linarith
    then show ?thesis
      using first
      by (subst streak_loop.simps) (simp add: satisfied_0 datetime_sub_overflow [OF False])
  qed
qed

lemma streak_loop_returns:
  "(\<forall>k<n. satisfied hist freq ref P k) \<Longrightarrow> \<not> satisfied hist freq ref P n \<Longrightarrow>
     \<exists>r. streak_loop hist freq P c ref (ref - P) = Some r"
proof (induction n arbitrary: ref c)
  case 0
  then show ?case
    by (subst streak_loop.simps) (simp add: satisfied_0)
next
  case (Suc n)
  have first: "satisfied hist freq ref P 0" using Suc.prems(1) by blast
  have rest: "\<forall>k<n. satisfied hist freq (ref - P) P k"
    using Suc.prems(1) by (simp add: satisfied_shift)
  have stop: "\<not> satisfied hist freq (ref - P) P n"
    using Suc.prems(2) by (simp add: satisfied_shift)
  show ?case
  proof (cases "valid_datetime (ref - P - P)")
    case True
    obtain r where "streak_loop hist freq P (c + 1) (ref - P) (ref - P - P) = Some r"
      using Suc.IH [OF rest stop] by blast
    then show ?thesis
      using first
      by (subst streak_loop.simps) (simp add: satisfied_0 datetime_sub_valid [OF True])
  next
    case False
    show ?thesis
      using first
      by (subst streak_loop.simps) (simp add: satisfied_0 datetime_sub_overflow [OF False])
  qed
qed

lemma lower_bound_exists: "\<exists>L::int. \<forall>t\<in>set hist. L \<le> t"
proof (induction hist)
  case Nil
  show ?case by simp
next
  case (Cons a hist)
  then obtain L where "\<forall>t\<in>set hist. L \<le> t" by blast
  then have "\<forall>t\<in>set (a # hist). min a L \<le> t" by auto
  then show ?case by blast
qed

lemma window_below_unsatisfied:
  assumes f: "1 \<le> freq" and L: "\<forall>t\<in>set hist. L \<le> t" and below: "ref - int k * P < L"
  shows "\<not> satisfied hist freq ref P k"
proof -
  have "filter (\<lambda>t. ref - (int k + 1) * P \<le> t \<and> t \<le> ref - int k * P) hist = []"
    using L below by (auto simp: filter_empty_conv)
  then have "window_count hist ref P k = 0"
    by (simp add: window_count_def)
  with f show ?thesis by (simp add: satisfied_def)
qed

lemma unsatisfied_window_exists:
  assumes f: "1 \<le> freq" and P: "0 < P"
  shows "\<exists>k. \<not> satisfied hist freq ref P k"
proof -
  obtain L where L: "\<forall>t\<in>set hist. L \<le> t"
    using lower_bound_exists by blast
  define k where "k = nat (ref - L) + 1"
  have "ref - L < int k" by (simp add: k_def)
  also have "int k \<le> int k * P" using P by (simp add: mult_le_cancel_left1)
  finally have "ref - int k * P < L" by simp
  then show ?thesis using window_below_unsatisfied [OF f L] by blast
qed

lemma first_unsatisfied_window:
  assumes f: "1 \<le> freq" and P: "0 < P"
  shows "\<exists>n. (\<forall>k<n. satisfied hist freq ref P k) \<and> \<not> satisfied hist freq ref P n"
proof -
  define n where "n = (LEAST k. \<not> satisfied hist freq ref P k)"
  have ex: "\<exists>k. \<not> satisfied hist freq ref P k"
    by (rule unsatisfied_window_exists [OF f P])
  have "\<not> satisfied hist freq ref P n"
    unfolding n_def using ex by (rule LeastI_ex)
  moreover have "\<forall>k<n. satisfied hist freq ref P k"
    unfolding n_def using not_less_Least by blast
  ultimately show ?thesis by blast
qed

lemma days_pos: "1 \<le> p \<Longrightarrow> 0 < p * us_per_day"
  by (simp add: us_per_day_def)

lemma timedelta_days_in_range:
  "- 999999999 \<le> p \<Longrightarrow> p \<le> 999999999 \<Longrightarrow> timedelta_days p = Inr (p * us_per_day)"
  by (simp add: timedelta_days_def)

lemma timedelta_days_overflow: "999999999 < p \<Longrightarrow> timedelta_days p = Inl OverflowError"
  by (simp add: timedelta_days_def)

lemma fold_max_Max: "fold max xs (x::int) = Max (set (x # xs))"
  by (simp only: Max.set_eq_fold)

lemma reference_point_anchor:
  "hist = x # xs \<Longrightarrow> reference_point (fold max xs x) update_time = anchor hist update_time"
  by (cases update_time) (simp_all add: reference_point_def anchor_def fold_max_Max)

lemma update_streak_unfold:
  assumes "history self \<noteq> []"
  shows "update_streak self update_time =
           (case timedelta_days (period self) of
              Inl e \<Rightarrow> Some (Inl e)
            | Inr period_length \<Rightarrow>
                (case datetime_sub (anchor (history self) update_time) period_length of
                   Inl e \<Rightarrow> Some (Inl e)
                 | Inr start_period \<Rightarrow>
                     map_option (map_sum id (store_streak self))
                       (streak_loop (history self) (frequency self) period_length 0
                          (anchor (history self) update_time) start_period)))"
proof -
  from assms obtain x xs where h: "history self = x # xs"
    by (cases "history self") auto
  have r: "reference_point (fold max xs x) update_time = anchor (history self) update_time"
    by (rule reference_point_anchor [OF h])
  have "update_streak self update_time =
          (let last_checkin = fold max xs x;
               reference = reference_point last_checkin update_time
           in case timedelta_days (period self) of
                Inl e \<Rightarrow> Some (Inl e)
              | Inr period_length \<Rightarrow>
                  (case datetime_sub reference period_length of
                     Inl e \<Rightarrow> Some (Inl e)
                   | Inr start_period \<Rightarrow>
                       map_option (map_sum id (store_streak self))
                         (streak_loop (history self) (frequency self) period_length 0
                            reference start_period)))"
    unfolding update_streak_def by (simp only: h list.case)
  then show ?thesis by (simp only: Let_def r)
qed

lemma store_streak_eq:
  "store_streak self n = self\<lparr>streak := n, longest_streak := max (longest_streak self) n\<rparr>"
  by (simp add: store_streak_def max_def)

lemma anchor_valid:
  assumes "hist \<noteq> []" "list_all valid_datetime hist"
    and "\<forall>u. update_time = Some u \<longrightarrow> valid_datetime u"
  shows "valid_datetime (anchor hist update_time)"
proof -
  have "Max (set hist) \<in> set hist" using assms(1) by (simp add: Max_in)
  then have "valid_datetime (Max (set hist))" using assms(2) by (simp add: list_all_iff)
  then show ?thesis using assms(3) by (auto simp: anchor_def)
qed

lemma update_streak_windows:
  assumes ne: "history self \<noteq> []" and f: "1 \<le> frequency self" and p: "1 \<le> period self"
    and a: "valid_datetime (anchor (history self) update_time)"
  shows "\<exists>n. (\<forall>k<n. satisfied (history self) (frequency self)
                   (anchor (history self) update_time) (period self * us_per_day) k)
            \<and> \<not> satisfied (history self) (frequency self)
                   (anchor (history self) update_time) (period self * us_per_day) n
            \<and> update_streak self update_time
                = Some (if period self \<le> 999999999
                           \<and> 0 \<le> anchor (history self) update_time
                                    - (int n + 1) * (period self * us_per_day)
                        then Inr (store_streak self (int n)) else Inl OverflowError)"
proof -
  define P where "P = period self * us_per_day"
  define r where "r = anchor (history self) update_time"
  have P: "0 < P" unfolding P_def by (rule days_pos [OF p])
  obtain n where n: "\<forall>k<n. satisfied (history self) (frequency self) r P k"
     "\<not> satisfied (history self) (frequency self) r P n"
    using first_unsatisfied_window [OF f P] by blast
  have mono: "r - (int n + 1) * P \<le> r - P"
  proof -
    have "0 \<le> int n * P" using P by simp
    then show ?thesis by (simp add: algebra_simps)
  qed
  have "update_streak self update_time
          = Some (if period self \<le> 999999999 \<and> 0 \<le> r - (int n + 1) * P
                  then Inr (store_streak self (int n)) else Inl OverflowError)"
  proof (cases "period self \<le> 999999999")
    case False
    then show ?thesis
      by (simp add: update_streak_unfold [OF ne] timedelta_days_overflow)
  next
    case True
    have td: "timedelta_days (period self) = Inr P"
      unfolding P_def using p True by (intro timedelta_days_in_range) simp_all
    show ?thesis
    proof (cases "valid_datetime (r - P)")
      case v: True
      show ?thesis
        using streak_loop_result [OF P n v, of 0] True
        by (simp add: update_streak_unfold [OF ne] td r_def [symmetric]
              datetime_sub_valid [OF v])
    next
      case v: False
      then have "r - P < 0" using below_valid [OF a [folded r_def] P] by simp
      with mono have "\<not> 0 \<le> r - (int n + 1) * P" by linarith
      then show ?thesis
        by (simp add: update_streak_unfold [OF ne] td r_def [symmetric]
              datetime_sub_overflow [OF v])
    qed
  qed
  with n show ?thesis unfolding P_def r_def by blast
qed

lemma update_streak_returns:
  assumes f: "1 \<le> frequency h" and p: "1 \<le> period h"
  shows "\<exists>r. update_streak h update_time = Some r"
proof (cases "history h")
  case Nil
  then show ?thesis by (simp add: update_streak_def)
next
  case (Cons x xs)
  then have ne: "history h \<noteq> []" by simp
  show ?thesis
  proof (cases "timedelta_days (period h)")
    case (Inl e)
    then show ?thesis by (simp add: update_streak_unfold [OF ne])
  next
    case (Inr P)
    then have P: "P = period h * us_per_day"
      by (auto simp: timedelta_days_def split: if_splits)
    have pos: "0 < P" unfolding P by (rule days_pos [OF p])
    show ?thesis
    proof (cases "datetime_sub (anchor (history h) update_time) P")
      case (Inl e)
      then show ?thesis by (simp add: update_streak_unfold [OF ne] \<open>timedelta_days (period h) = Inr P\<close>)
    next
      case s: (Inr s)
      then have s': "s = anchor (history h) update_time - P"
        by (auto simp: datetime_sub_def split: if_splits)
      obtain n where n: "\<forall>k<n. satisfied (history h) (frequency h)
                              (anchor (history h) update_time) P k"
        "\<not> satisfied (history h) (frequency h) (anchor (history h) update_time) P n"
        using first_unsatisfied_window [OF f pos] by blast
      obtain r where "streak_loop (history h) (frequency h) P 0
                        (anchor (history h) update_time) s = Some r"
        using streak_loop_returns [OF n, of 0] unfolding s' by blast
      then show ?thesis
        by (simp add: update_streak_unfold [OF ne] \<open>timedelta_days (period h) = Inr P\<close> s)
    qed
  qed
qed

lemma zero_period_never_leaves:
  assumes v: "valid_datetime s"
    and sat: "freq \<le> int (length (filter (\<lambda>dt. s \<le> dt \<and> dt \<le> s) hist))"
  shows "streak_loop hist freq 0 c s s = None"
proof (rule ccontr)
  assume "streak_loop hist freq 0 c s s \<noteq> None"
  then obtain y where y: "streak_loop hist freq 0 c s s = Some y" by auto
  define Q where "Q = (\<lambda>h fr (p::int) (n::int) e st (r::py_error + int).
                         \<not> (h = hist \<and> fr = freq \<and> p = 0 \<and> e = s \<and> st = s))"
  have "Q hist freq 0 c s s y"
  proof (rule streak_loop.raw_induct [where P = Q, OF _ y])
    fix f :: "int list \<Rightarrow> int \<Rightarrow> int \<Rightarrow> int \<Rightarrow> int \<Rightarrow> int \<Rightarrow> (py_error + int) option"
    fix h fr p n e st r
    assume ih: "\<And>h fr p n e st r. f h fr p n e st = Some r \<Longrightarrow> Q h fr p n e st r"
      and run: "(if fr \<le> int (length (filter (\<lambda>dt. st \<le> dt \<and> dt \<le> e) h))
                 then case datetime_sub st p of
                        Inl x \<Rightarrow> Some (Inl x)
                      | Inr st' \<Rightarrow> f h fr p (n + 1) st st'
                 else Some (Inr n)) = Some r"
    show "Q h fr p n e st r"
      unfolding Q_def
    proof
      assume eqs: "h = hist \<and> fr = freq \<and> p = 0 \<and> e = s \<and> st = s"
      have "f hist freq 0 (n + 1) s s = Some r"
        using run eqs v sat by (simp add: datetime_sub_def)
      then have "Q hist freq 0 (n + 1) s s r" by (rule ih)
      then show False by (simp add: Q_def)
    qed
  qed
  then show False by (simp add: Q_def)
qed

lemma zero_period_update_streak:
  "update_streak zero_period None = None"
proof -
  have v: "valid_datetime 63871329600000000"
    by (simp add: valid_datetime_def MAXORDINAL_def us_per_day_def)
  have sat: "(1::int) \<le> int (length (filter (\<lambda>dt. 63871329600000000 \<le> dt
                \<and> dt \<le> 63871329600000000) [63871329600000000::int]))"
    by simp
  have "streak_loop [63871329600000000] 1 0 0 63871329600000000 63871329600000000 = None"
    by (rule zero_period_never_leaves [OF v sat])
  then show ?thesis
    by (simp add: update_streak_def zero_period_def reference_point_def timedelta_days_def
          datetime_sub_def v)
qed

lemma all_less_numeral:
  "(\<forall>k<numeral n. Q k) = (Q (pred_numeral n) \<and> (\<forall>k<pred_numeral n. Q k))"
  by (simp only: numeral_eq_Suc All_less_Suc)

lemma Habit_init_fresh:
  assumes "Habit_init c today nm pty cr hid = (Inr h, c')"
  shows "history h = []" "streak h = 0" "longest_streak h = 0"
    "frequency h = pty ! 0" "period h = pty ! 1" "periodicity h = pty" "name h = nm"
  using assms
  by (auto simp: Habit_init_def Let_def split: if_splits option.splits prod.splits)

lemma update_streak_from_windows:
  assumes ne: "history self \<noteq> []"
    and per: "1 \<le> period self" "period self \<le> 999999999"
    and a: "anchor (history self) update_time = r" and v: "valid_datetime r"
    and sat: "\<forall>k<n. satisfied (history self) (frequency self) r (period self * us_per_day) k"
    and stop: "\<not> satisfied (history self) (frequency self) r (period self * us_per_day) n"
    and range: "0 \<le> r - (int n + 1) * (period self * us_per_day)"
  shows "update_streak self update_time = Some (Inr (store_streak self (int n)))"
proof -
  define P where "P = period self * us_per_day"
  have P: "0 < P" unfolding P_def by (rule days_pos [OF per(1)])
  have td: "timedelta_days (period self) = Inr P"
    unfolding P_def using per by (intro timedelta_days_in_range) simp_all
  have "0 \<le> int n * P" using P by simp
  then have "r - (int n + 1) * P \<le> r - P" by (simp add: algebra_simps)
  then have "0 \<le> r - P" using range [folded P_def] by linarith
  then have v': "valid_datetime (r - P)" using below_valid [OF v P] by simp
  have "streak_loop (history self) (frequency self) P 0 r (r - P) = Some (Inr (int n))"
    using streak_loop_result [OF P sat [folded P_def] stop [folded P_def] v', where c = 0]
      range [folded P_def]
    by simp
  then show ?thesis
    by (simp add: update_streak_unfold [OF ne] td a datetime_sub_valid [OF v'])
qed

lemma read_book_history:
  assumes "history h = []"
  shows "history (read_book_checkins today s h) =
           map (\<lambda>d. s + d * us_per_day) [0, 1, 2, 7, 8, 9, 14, 15, 16, 21, 22, 23]"
proof -
  have w: "map int [0..<4] = [0, 1, 2, 3]" by code_simp
  have j: "map int [0..<3] = [0, 1, 2]" by code_simp
  show ?thesis
    using assms
    by (simp add: read_book_checkins_def check_in_def us_per_day_def w j)
qed

lemma read_book_unchanged:
  "frequency (read_book_checkins today s h) = frequency h"
  "period (read_book_checkins today s h) = period h"
  "longest_streak (read_book_checkins today s h) = longest_streak h"
proof -
  have w: "map int [0..<4] = [0, 1, 2, 3]" by code_simp
  have j: "map int [0..<3] = [0, 1, 2]" by code_simp
  show "frequency (read_book_checkins today s h) = frequency h"
    by (simp add: read_book_checkins_def check_in_def w j)
  show "period (read_book_checkins today s h) = period h"
    by (simp add: read_book_checkins_def check_in_def w j)
  show "longest_streak (read_book_checkins today s h) = longest_streak h"
    by (simp add: read_book_checkins_def check_in_def w j)
qed

lemma scenario_E_anchor:
  assumes "update_time = None \<or> (\<exists>u. update_time = Some u \<and> s + 23 * us_per_day \<le> u)"
  shows "anchor (map (\<lambda>d. s + d * us_per_day) [0, 1, 2, 7, 8, 9, 14, 15, 16, 21, 22, 23])
           update_time = s + 1987200000000"
  using assms by (auto simp: anchor_def us_per_day_def)

lemma scenario_E_windows:
  "\<forall>k<4. satisfied (map (\<lambda>d. s + d * us_per_day) [0, 1, 2, 7, 8, 9, 14, 15, 16, 21, 22, 23])
            3 (s + 1987200000000) (7 * us_per_day) k"
  "\<not> satisfied (map (\<lambda>d. s + d * us_per_day) [0, 1, 2, 7, 8, 9, 14, 15, 16, 21, 22, 23])
            3 (s + 1987200000000) (7 * us_per_day) 4"
proof -
  show "\<forall>k<4. satisfied (map (\<lambda>d. s + d * us_per_day) [0, 1, 2, 7, 8, 9, 14, 15, 16, 21, 22, 23])
            3 (s + 1987200000000) (7 * us_per_day) k"
    by (simp add: all_less_numeral satisfied_def window_count_def us_per_day_def)
  show "\<not> satisfied (map (\<lambda>d. s + d * us_per_day) [0, 1, 2, 7, 8, 9, 14, 15, 16, 21, 22, 23])
            3 (s + 1987200000000) (7 * us_per_day) 4"
    by (simp add: satisfied_def window_count_def us_per_day_def)
qed

lemma scenario_E:
  assumes init: "Habit_init c created nm [3, 7] cr hid = (Inr habit4, c')"
    and ut: "update_time = None \<or> (\<exists>u. update_time = Some u \<and> start_date + 23 * us_per_day \<le> u)"
    and lo: "12 * us_per_day \<le> start_date"
    and hi: "valid_datetime (start_date + 23 * us_per_day)"
  shows "map_option (map_sum id (\<lambda>h. (streak h, longest_streak h)))
           (update_streak (read_book_checkins today start_date habit4) update_time)
         = Some (Inr (4, 4))"
proof -
  let ?h = "read_book_checkins today start_date habit4"
  have hist: "history ?h =
      map (\<lambda>d. start_date + d * us_per_day) [0, 1, 2, 7, 8, 9, 14, 15, 16, 21, 22, 23]"
    by (rule read_book_history) (rule Habit_init_fresh(1) [OF init])
  have fp: "frequency ?h = 3" "period ?h = 7" "longest_streak ?h = 0"
    using Habit_init_fresh [OF init] by (simp_all add: read_book_unchanged)
  have ne: "history ?h \<noteq> []" by (simp add: hist)
  have per: "1 \<le> period ?h" "period ?h \<le> 999999999" by (simp_all add: fp)
  have a: "anchor (history ?h) update_time = start_date + 1987200000000"
    by (simp only: hist scenario_E_anchor [OF ut])
  have v: "valid_datetime (start_date + 1987200000000)"
    using lo hi by (simp add: valid_datetime_def us_per_day_def MAXORDINAL_def)
  have sat: "\<forall>k<4. satisfied (history ?h) (frequency ?h) (start_date + 1987200000000)
                      (period ?h * us_per_day) k"
    unfolding hist fp by (rule scenario_E_windows(1))
  have stop: "\<not> satisfied (history ?h) (frequency ?h) (start_date + 1987200000000)
                      (period ?h * us_per_day) 4"
    unfolding hist fp by (rule scenario_E_windows(2))
  have range: "0 \<le> start_date + 1987200000000 - (int 4 + 1) * (period ?h * us_per_day)"
    using lo by (simp add: fp us_per_day_def)
  have "update_streak ?h update_time = Some (Inr (store_streak ?h (int 4)))"
    by (rule update_streak_from_windows [OF ne per a v sat stop range])
  then show ?thesis by (simp add: store_streak_def fp)
qed

lemma days28: "map int [0..<28] = [0, 1, 2, 3, 4, 5, 6, 7, 8, 9, 10, 11, 12, 13, 14, 15, 16, 17,
   18, 19, 20, 21, 22, 23, 24, 25, 26, 27]"
  by code_simp

lemma exercise_history:
  assumes "history h = []"
  shows "history (exercise_checkins today s h) = map (\<lambda>d. s + d * us_per_day) exercise_days"
  using assms
  by (simp add: exercise_checkins_def check_in_def us_per_day_def days28 exercise_days_def)

lemma exercise_unchanged:
  "frequency (exercise_checkins today s h) = frequency h"
  "period (exercise_checkins today s h) = period h"
  "longest_streak (exercise_checkins today s h) = longest_streak h"
  by (simp_all add: exercise_checkins_def check_in_def days28)

lemma exercise_anchor:
  assumes "update_time = None \<or> (\<exists>u. update_time = Some u \<and> s + 27 * us_per_day \<le> u)"
  shows "anchor (map (\<lambda>d. s + d * us_per_day) exercise_days) update_time = s + 2332800000000"
  using assms by (auto simp: anchor_def us_per_day_def exercise_days_def)

lemma exercise_windows:
  "\<forall>k<27. satisfied (map (\<lambda>d. s + d * us_per_day) exercise_days) 1
             (s + 2332800000000) (1 * us_per_day) k"
  "\<not> satisfied (map (\<lambda>d. s + d * us_per_day) exercise_days) 1
       (s + 2332800000000) (1 * us_per_day) 27"
proof -
  show "\<forall>k<27. satisfied (map (\<lambda>d. s + d * us_per_day) exercise_days) 1
             (s + 2332800000000) (1 * us_per_day) k"
    by (simp add: all_less_numeral satisfied_def window_count_def us_per_day_def
          exercise_days_def)
  show "\<not> satisfied (map (\<lambda>d. s + d * us_per_day) exercise_days) 1
       (s + 2332800000000) (1 * us_per_day) 27"
    by (simp add: satisfied_def window_count_def us_per_day_def exercise_days_def)
qed

lemma exercise_streak:
  assumes init: "Habit_init c created nm [1, 1] cr hid = (Inr habit2, c')"
    and ut: "update_time = None \<or> (\<exists>u. update_time = Some u \<and> start_date + 27 * us_per_day \<le> u)"
    and lo: "us_per_day \<le> start_date"
    and hi: "valid_datetime (start_date + 27 * us_per_day)"
  shows "map_option (map_sum id (\<lambda>h. (streak h, longest_streak h)))
           (update_streak (exercise_checkins today start_date habit2) update_time)
         = Some (Inr (27, 27))"
proof -
  let ?h = "exercise_checkins today start_date habit2"
  have hist: "history ?h = map (\<lambda>d. start_date + d * us_per_day) exercise_days"
    by (rule exercise_history) (rule Habit_init_fresh(1) [OF init])
  have fp: "frequency ?h = 1" "period ?h = 1" "longest_streak ?h = 0"
    using Habit_init_fresh [OF init] by (simp_all add: exercise_unchanged)
  have ne: "history ?h \<noteq> []" by (simp add: hist exercise_days_def)
  have per: "1 \<le> period ?h" "period ?h \<le> 999999999" by (simp_all add: fp)
  have a: "anchor (history ?h) update_time = start_date + 2332800000000"
    by (simp only: hist exercise_anchor [OF ut])
  have v: "valid_datetime (start_date + 2332800000000)"
    using lo hi by (simp add: valid_datetime_def us_per_day_def MAXORDINAL_def)
  have sat: "\<forall>k<27. satisfied (history ?h) (frequency ?h) (start_date + 2332800000000)
                      (period ?h * us_per_day) k"
    unfolding hist fp by (rule exercise_windows(1))
  have stop: "\<not> satisfied (history ?h) (frequency ?h) (start_date + 2332800000000)
                      (period ?h * us_per_day) 27"
    unfolding hist fp by (rule exercise_windows(2))
  have range: "0 \<le> start_date + 2332800000000 - (int 27 + 1) * (period ?h * us_per_day)"
    using lo by (simp add: fp us_per_day_def)
  have "update_streak ?h update_time = Some (Inr (store_streak ?h (int 27)))"
    by (rule update_streak_from_windows [OF ne per a v sat stop range])
  then show ?thesis by (simp add: store_streak_def fp)
qed

lemma days_after_last_miss_6: "days_after_last_miss = 6"
  by (simp add: days_after_last_miss_def days28 missed_day_def)

lemma three_days_streak:
  "update_streak three_days update_time
     = Some (Inr (three_days\<lparr>streak := 3, longest_streak := 3\<rparr>))"
  if "update_time = None \<or> update_time = Some 63871545600000000"
proof -
  have ne: "history three_days \<noteq> []" by (simp add: three_days_def)
  have per: "1 \<le> period three_days" "period three_days \<le> 999999999"
    by (simp_all add: three_days_def)
  have a: "anchor (history three_days) update_time = 63871459200000000"
    using that by (auto simp: anchor_def three_days_def)
  have v: "valid_datetime 63871459200000000"
    by (simp add: valid_datetime_def MAXORDINAL_def us_per_day_def)
  have sat: "\<forall>k<3. satisfied (history three_days) (frequency three_days) 63871459200000000
               (period three_days * us_per_day) k"
    by (simp add: all_less_numeral satisfied_def window_count_def three_days_def us_per_day_def)
  have stop: "\<not> satisfied (history three_days) (frequency three_days) 63871459200000000
               (period three_days * us_per_day) 3"
    by (simp add: satisfied_def window_count_def three_days_def us_per_day_def)
  have range: "0 \<le> 63871459200000000 - (int 3 + 1) * (period three_days * us_per_day)"
    by (simp add: three_days_def us_per_day_def)
  have "update_streak three_days update_time = Some (Inr (store_streak three_days (int 3)))"
    by (rule update_streak_from_windows [OF ne per a v sat stop range])
  then show ?thesis by (simp add: store_streak_def three_days_def)
qed

lemma first_days_loop:
  "streak_loop (history first_days) 1 (1 * us_per_day) 0 172800000000 86400000000
     = Some (Inl OverflowError)"
  by code_simp

lemma first_days_overflow: "update_streak first_days None = Some (Inl OverflowError)"
  by code_simp

lemma long_period_overflow: "update_streak long_period None = Some (Inl OverflowError)"
  by code_simp

lemma late_in_week_streak:
  "map_option (map_sum id (\<lambda>h. (streak h, longest_streak h)))
     (update_streak late_in_week (Some (63871329600000000 + 28 * us_per_day)))
   = Some (Inr (3, 3))"
  by code_simp

lemma map_sum_id_Inr: "map_sum id g z = Inr y \<Longrightarrow> \<exists>b. z = Inr b \<and> y = g b"
  by (cases z) auto







section \<open>Analytics by identifier\<close>

lemma longest_streak_in_not_found:
  "(\<forall>h\<in>set hs. habit_id h \<noteq> hid) \<Longrightarrow> longest_streak_in hs hid = Some (Inr (None, hs))"
  by (induction hs) simp_all

lemma longest_streak_in_found:
  "(\<forall>g\<in>set pre. habit_id g \<noteq> hid) \<Longrightarrow> habit_id h = hid \<Longrightarrow>
     longest_streak_in (pre @ h # post) hid
       = map_option (map_sum id (\<lambda>h'. (Some (longest_streak h'), pre @ h' # post)))
           (update_streak h None)"
proof (induction pre)
  case Nil
  then show ?case by (simp add: id_def)
next
  case (Cons g pre)
  then show ?case
    by (simp add: option.map_comp sum.map_comp comp_def id_def)
qed

lemma first_match_split:
  "\<exists>h\<in>set hs. habit_id h = hid \<Longrightarrow>
     \<exists>pre h post. hs = pre @ h # post \<and> (\<forall>g\<in>set pre. habit_id g \<noteq> hid) \<and> habit_id h = hid"
proof (induction hs)
  case Nil
  then show ?case by simp
next
  case (Cons a hs)
  show ?case
  proof (cases "habit_id a = hid")
    case True
    then have "a # hs = [] @ a # hs \<and> (\<forall>g\<in>set []. habit_id g \<noteq> hid) \<and> habit_id a = hid"
      by simp
    then show ?thesis by blast
  next
    case False
    with Cons.prems have "\<exists>h\<in>set hs. habit_id h = hid" by simp
    then obtain pre h post where
      "hs = pre @ h # post" "\<forall>g\<in>set pre. habit_id g \<noteq> hid" "habit_id h = hid"
      using Cons.IH by blast
    with False have "a # hs = (a # pre) @ h # post
        \<and> (\<forall>g\<in>set (a # pre). habit_id g \<noteq> hid) \<and> habit_id h = hid"
      by simp
    then show ?thesis by blast
  qed
qed

lemma analytics_found:
  assumes sp: "habits usr = pre @ h # post" "\<forall>g\<in>set pre. habit_id g \<noteq> hid" "habit_id h = hid"
  shows "analytics_longest_streak_for_habit usr hid
          = map_option (map_sum id
              (\<lambda>h'. (Some (longest_streak h'), usr\<lparr>habits := pre @ h' # post\<rparr>)))
              (update_streak h None)"
  by (simp add: analytics_longest_streak_for_habit_def sp(1)
        longest_streak_in_found [OF sp(2,3)] option.map_comp sum.map_comp comp_def id_def)

lemma analytics_signal:
  assumes "analytics_longest_streak_for_habit usr hid = Some (Inr (r, usr'))"
  shows "(r = None) = (\<forall>h\<in>set (habits usr). habit_id h \<noteq> hid)"
proof (cases "\<exists>h\<in>set (habits usr). habit_id h = hid")
  case True
  then obtain pre h post where
    sp: "habits usr = pre @ h # post" "\<forall>g\<in>set pre. habit_id g \<noteq> hid" "habit_id h = hid"
    using first_match_split by blast
  have "r \<noteq> None"
    using assms unfolding analytics_found [OF sp]
    by (cases "update_streak h None") (auto dest: map_sum_id_Inr)
  with True show ?thesis by blast
next
  case False
  then have nf: "\<forall>h\<in>set (habits usr). habit_id h \<noteq> hid" by blast
  have "r = None"
    using assms
    by (simp add: analytics_longest_streak_for_habit_def longest_streak_in_not_found [OF nf])
  with nf show ?thesis by blast
qed

section \<open>The identifier counter\<close>

lemma Habit_init_counter:
  assumes "Habit_init c today nm pty cr hid = (r, c')"
  shows "c \<le> c'"
    and "r = Inr h \<Longrightarrow> habit_id h < c'"
    and "r = Inr h \<Longrightarrow> hid = None \<Longrightarrow> habit_id h = c"
    and "r = Inr h \<Longrightarrow> hid = Some i \<Longrightarrow> habit_id h = i"
  using assms
  by (auto simp: Habit_init_def Let_def split: if_splits option.splits)

lemma Habit_from_dict_steps:
  assumes "Habit_from_dict c today d = (r, c')"
  shows "c' = c \<and> (\<exists>e. r = Inl e)
       \<or> (\<exists>nm pty cr hid r0. doc_habit_id d = Some hid
            \<and> Habit_init c today nm pty (Some cr) (Some hid) = (r0, c')
            \<and> (\<forall>h. r = Inr h \<longrightarrow> (\<exists>h0. r0 = Inr h0 \<and> habit_id h = habit_id h0)))"
proof (cases "doc_name d")
  case None
  with assms show ?thesis by (auto simp: Habit_from_dict_def)
next
  case nm: (Some nm)
  show ?thesis
  proof (cases "doc_periodicity d")
    case None
    with assms nm show ?thesis by (auto simp: Habit_from_dict_def)
  next
    case pty: (Some pty)
    show ?thesis
    proof (cases "doc_creation d")
      case None
      with assms nm pty show ?thesis by (auto simp: Habit_from_dict_def)
    next
      case cs: (Some cs)
      show ?thesis
      proof (cases "datetime_from_str cs")
        case (Inl e)
        with assms nm pty cs show ?thesis by (auto simp: Habit_from_dict_def)
      next
        case cr: (Inr cr)
        show ?thesis
        proof (cases "doc_habit_id d")
          case None
          with assms nm pty cs cr show ?thesis by (auto simp: Habit_from_dict_def)
        next
          case hid: (Some hid)
          obtain r0 c1 where init: "Habit_init c today nm pty (Some cr) (Some hid) = (r0, c1)"
            by (cases "Habit_init c today nm pty (Some cr) (Some hid)")
          have "c' = c1 \<and> (\<forall>h. r = Inr h \<longrightarrow> (\<exists>h0. r0 = Inr h0 \<and> habit_id h = habit_id h0))"
            using assms nm pty cs cr hid init
            by (cases r0; cases "parse_history (case doc_history d of None \<Rightarrow> [] | Some ss \<Rightarrow> ss)")
               (auto simp: Habit_from_dict_def)
          with init hid show ?thesis by blast
        qed
      qed
    qed
  qed
qed

lemma Habit_from_dict_counter:
  assumes "Habit_from_dict c today d = (r, c')"
  shows "c \<le> c'"
    and "r = Inr h \<Longrightarrow> habit_id h < c'"
    and "r = Inr h \<Longrightarrow> doc_habit_id d = Some (habit_id h)"
proof -
  have "c \<le> c' \<and> (r = Inr h \<longrightarrow> habit_id h < c' \<and> doc_habit_id d = Some (habit_id h))"
    using Habit_from_dict_steps [OF assms]
  proof (elim disjE exE conjE)
    fix e
    assume "c' = c" and "r = Inl e"
    then show ?thesis by simp
  next
    fix nm pty cr hid r0
    assume hid: "doc_habit_id d = Some hid"
      and init: "Habit_init c today nm pty (Some cr) (Some hid) = (r0, c')"
      and res: "\<forall>h. r = Inr h \<longrightarrow> (\<exists>h0. r0 = Inr h0 \<and> habit_id h = habit_id h0)"
    have le: "c \<le> c'" by (rule Habit_init_counter(1) [OF init])
    show ?thesis
    proof (intro conjI impI)
      show "c \<le> c'" by (rule le)
      assume r: "r = Inr h"
      then obtain h0 where h0: "r0 = Inr h0" "habit_id h = habit_id h0"
        using res by blast
      show "habit_id h < c'"
        using Habit_init_counter(2) [OF init h0(1)] h0(2) by simp
      show "doc_habit_id d = Some (habit_id h)"
        using Habit_init_counter(4) [OF init h0(1) refl] h0(2) hid by simp
    qed
  qed
  then show "c \<le> c'" and "r = Inr h \<Longrightarrow> habit_id h < c'"
    and "r = Inr h \<Longrightarrow> doc_habit_id d = Some (habit_id h)"
    by simp_all
qed

lemma habits_from_dicts_counter:
  "habits_from_dicts c today ds = (r, c') \<Longrightarrow>
     c \<le> c' \<and> (\<forall>hs. r = Inr hs \<longrightarrow> (\<forall>h\<in>set hs. habit_id h < c'))"
proof (induction ds arbitrary: c r c')
  case Nil
  then show ?case by auto
next
  case (Cons d ds)
  obtain r1 c1 where one: "Habit_from_dict c today d = (r1, c1)"
    by (cases "Habit_from_dict c today d")
  have c1: "c \<le> c1" by (rule Habit_from_dict_counter(1) [OF one])
  show ?case
  proof (cases r1)
    case (Inl e)
    with Cons.prems one c1 show ?thesis by auto
  next
    case (Inr h)
    have hc1: "habit_id h < c1" by (rule Habit_from_dict_counter(2) [OF one Inr])
    obtain r2 c2 where rest: "habits_from_dicts c1 today ds = (r2, c2)"
      by (cases "habits_from_dicts c1 today ds")
    have ih: "c1 \<le> c2" "\<forall>hs. r2 = Inr hs \<longrightarrow> (\<forall>h\<in>set hs. habit_id h < c2)"
      using Cons.IH [OF rest] by simp_all
    from Cons.prems one Inr rest have res: "c' = c2"
      "\<forall>hs. r = Inr hs \<longrightarrow> (\<exists>hs'. r2 = Inr hs' \<and> hs = h # hs')"
      by (auto split: sum.splits)
    show ?thesis using res ih c1 hc1 by fastforce
  qed
qed

lemma User_from_dict_counter:
  assumes "User_from_dict c today doc = (r, c')"
  shows "c \<le> c'" and "r = Inr usr \<Longrightarrow> \<forall>h\<in>set (habits usr). habit_id h < c'"
proof -
  obtain r1 c1 where hs: "habits_from_dicts c today
        (case doc_habits doc of None \<Rightarrow> [] | Some ds \<Rightarrow> ds) = (r1, c1)"
    by (cases "habits_from_dicts c today (case doc_habits doc of None \<Rightarrow> [] | Some ds \<Rightarrow> ds)")
  have c1: "c' = c1"
    using assms hs by (auto simp: User_from_dict_def split: sum.splits option.splits)
  show "c \<le> c'"
    using habits_from_dicts_counter [OF hs] c1 by simp
  show "r = Inr usr \<Longrightarrow> \<forall>h\<in>set (habits usr). habit_id h < c'"
    using assms hs habits_from_dicts_counter [OF hs] c1
    by (auto simp: User_from_dict_def split: sum.splits option.splits)
qed

lemma constructor_calls_counter:
  "constructor_calls c today calls = (rs, c') \<Longrightarrow>
     c \<le> c' \<and> (\<forall>h. Inr h \<in> set rs \<longrightarrow> habit_id h < c')"
proof (induction calls arbitrary: c rs c')
  case Nil
  then show ?case by auto
next
  case (Cons call calls)
  obtain nm pty cr hid where call: "call = (nm, pty, cr, hid)"
    by (cases call) auto
  obtain r1 c1 where one: "Habit_init c today nm pty cr hid = (r1, c1)"
    by (cases "Habit_init c today nm pty cr hid")
  obtain rs2 c2 where rest: "constructor_calls c1 today calls = (rs2, c2)"
    by (cases "constructor_calls c1 today calls")
  have ih: "c1 \<le> c2" "\<forall>h. Inr h \<in> set rs2 \<longrightarrow> habit_id h < c2"
    using Cons.IH [OF rest] by simp_all
  have res: "rs = r1 # rs2" "c' = c2"
    using Cons.prems by (simp_all add: call one rest)
  have c1: "c \<le> c1" by (rule Habit_init_counter(1) [OF one])
  have "\<forall>h. r1 = Inr h \<longrightarrow> habit_id h < c1"
    using Habit_init_counter(2) [OF one] by blast
  then show ?case using res ih c1 by fastforce
qed

lemma iso_2025: "datetime_from_str ''2025-01-01T12:00:00'' = Inr 63871329600000000"
  by code_simp

section \<open>The calendar\<close>

text \<open>
  The day number of the date that \<open>ord2ymd\<close> gives is the day number it was given, and
  the date is a date of the calendar.
\<close>

lemma month_and_day_table:
  "list_all (\<lambda>n. list_all (\<lambda>leap.
       case month_and_day leap n of (m, d) \<Rightarrow>
         1 \<le> m \<and> m \<le> 12 \<and> 1 \<le> d
         \<and> d \<le> (if m = 2 \<and> leap then 29 else DAYS_IN_MONTH ! nat m)
         \<and> DAYS_BEFORE_MONTH ! nat m + (if m > 2 \<and> leap then 1 else 0) + d = n + 1)
     [False, True]) [0..364]"
  by code_simp

lemma month_and_day_ok:
  assumes "0 \<le> n" "n < 365" "month_and_day leap n = (m, d)"
  shows "1 \<le> m \<and> m \<le> 12 \<and> 1 \<le> d
         \<and> d \<le> (if m = 2 \<and> leap then 29 else DAYS_IN_MONTH ! nat m)
         \<and> DAYS_BEFORE_MONTH ! nat m + (if m > 2 \<and> leap then 1 else 0) + d = n + 1"
proof -
  have n: "n \<in> set [0..364]" using assms(1,2) by simp
  have l: "leap \<in> set [False, True]" by simp
  have "case month_and_day leap n of (m, d) \<Rightarrow>
         1 \<le> m \<and> m \<le> 12 \<and> 1 \<le> d
         \<and> d \<le> (if m = 2 \<and> leap then 29 else DAYS_IN_MONTH ! nat m)
         \<and> DAYS_BEFORE_MONTH ! nat m + (if m > 2 \<and> leap then 1 else 0) + d = n + 1"
    using month_and_day_table [unfolded list_all_iff, THEN bspec, OF n, THEN bspec, OF l] .
  then show ?thesis by (simp only: assms(3) prod.case)
qed

lemma div_split: "0 \<le> r \<Longrightarrow> r < k \<Longrightarrow> (k * q + r) div k = (q::int)"
  by (simp add: div_pos_pos_trivial)

lemma days_before_year_split:
  assumes "0 \<le> b" "b \<le> 3" "0 \<le> c" "c \<le> 24" "0 \<le> d" "d \<le> 3"
  shows "days_before_year (a * 400 + 1 + b * 100 + c * 4 + d)
           = 146097 * a + 36524 * b + 1461 * c + 365 * (d::int)"
proof -
  define y where "y = a * 400 + b * 100 + c * 4 + d"
  have y4: "y = 4 * (100 * a + 25 * b + c) + d" by (simp add: y_def)
  have y100: "y = 100 * (4 * a + b) + (4 * c + d)" by (simp add: y_def)
  have y400: "y = 400 * a + (100 * b + 4 * c + d)" by (simp add: y_def)
  have d4: "y div 4 = 100 * a + 25 * b + c"
    unfolding y4 using assms by (intro div_split) linarith+
  have d100: "y div 100 = 4 * a + b"
    unfolding y100 using assms by (intro div_split) linarith+
  have d400: "y div 400 = a"
    unfolding y400 using assms by (intro div_split) linarith+
  have "days_before_year (y + 1) = y * 365 + y div 4 - y div 100 + y div 400"
    by (simp add: days_before_year_def Let_def)
  also have "\<dots> = 146097 * a + 36524 * b + 1461 * c + 365 * d"
    unfolding d4 d100 d400 by (simp add: y_def)
  finally show ?thesis by (simp add: y_def add.commute add.left_commute)
qed

lemma is_leap_split:
  assumes "0 \<le> b" "b \<le> 3" "0 \<le> c" "c \<le> 24" "0 \<le> d" "d \<le> 3"
  shows "is_leap (a * 400 + 1 + b * 100 + c * 4 + d) = (d = 3 \<and> (c \<noteq> 24 \<or> b = (3::int)))"
proof -
  define y where "y = a * 400 + 1 + b * 100 + c * 4 + d"
  have y4: "y = 4 * (100 * a + 25 * b + c) + (d + 1)" by (simp add: y_def)
  have y100: "y = 100 * (4 * a + b) + (4 * c + d + 1)" by (simp add: y_def)
  have y400: "y = 400 * a + (100 * b + 4 * c + d + 1)" by (simp add: y_def)
  have m4: "y mod 4 = (d + 1) mod 4" unfolding y4 by (simp only: mod_mult_self4)
  have m100: "y mod 100 = (4 * c + d + 1) mod 100" unfolding y100 by (simp only: mod_mult_self4)
  have m400: "y mod 400 = (100 * b + 4 * c + d + 1) mod 400"
    unfolding y400 by (simp only: mod_mult_self4)
  have e4: "((d + 1) mod 4 = 0) = (d = 3)"
  proof (cases "d = 3")
    case True
    then show ?thesis by simp
  next
    case False
    then have "0 \<le> d + 1" "d + 1 < 4" using assms by linarith+
    then have "(d + 1) mod 4 = d + 1" by (rule mod_pos_pos_trivial)
    with False assms show ?thesis by simp
  qed
  have e100: "((4 * c + d + 1) mod 100 = 0) = (c = 24 \<and> d = 3)"
  proof (cases "c = 24 \<and> d = 3")
    case True
    then show ?thesis by simp
  next
    case False
    then have "0 \<le> 4 * c + d + 1" "4 * c + d + 1 < 100" using assms by linarith+
    then have "(4 * c + d + 1) mod 100 = 4 * c + d + 1" by (rule mod_pos_pos_trivial)
    with False assms show ?thesis by simp
  qed
  have e400: "((100 * b + 4 * c + d + 1) mod 400 = 0) = (b = 3 \<and> c = 24 \<and> d = 3)"
  proof (cases "b = 3 \<and> c = 24 \<and> d = 3")
    case True
    then show ?thesis by simp
  next
    case False
    then have "0 \<le> 100 * b + 4 * c + d + 1" "100 * b + 4 * c + d + 1 < 400"
      using assms by linarith+
    then have "(100 * b + 4 * c + d + 1) mod 400 = 100 * b + 4 * c + d + 1"
      by (rule mod_pos_pos_trivial)
    with False assms show ?thesis by simp
  qed
  have "is_leap y = (d = 3 \<and> (c \<noteq> 24 \<or> b = 3))"
    unfolding is_leap_def m4 m100 m400 e4 e100 e400 by blast
  then show ?thesis by (simp only: y_def)
qed

lemma ord2ymd_inverse:
  assumes lo: "1 \<le> ordinal" and hi: "ordinal \<le> MAXORDINAL"
    and res: "ord2ymd ordinal = (y, m, d)"
  shows "1 \<le> y \<and> y \<le> 9999 \<and> 1 \<le> m \<and> m \<le> 12 \<and> 1 \<le> d \<and> d \<le> days_in_month y m
         \<and> ymd2ord y m d = ordinal"
proof -
  define n0 where "n0 = ordinal - 1"
  define a where "a = n0 div 146097"
  define r1 where "r1 = n0 mod 146097"
  define b where "b = r1 div 36524"
  define r2 where "r2 = r1 mod 36524"
  define c where "c = r2 div 1461"
  define r3 where "r3 = r2 mod 1461"
  define e where "e = r3 div 365"
  define n where "n = r3 mod 365"
  have n0: "0 \<le> n0" "n0 \<le> 3652058" using lo hi by (simp_all add: n0_def MAXORDINAL_def)
  have s0: "n0 = 146097 * a + r1" by (simp add: a_def r1_def)
  have s1: "r1 = 36524 * b + r2" by (simp add: b_def r2_def)
  have s2: "r2 = 1461 * c + r3" by (simp add: c_def r3_def)
  have s3: "r3 = 365 * e + n" by (simp add: e_def n_def)
  have b1: "0 \<le> r1" "r1 < 146097" by (simp_all add: r1_def)
  have b2: "0 \<le> r2" "r2 < 36524" by (simp_all add: r2_def)
  have b3: "0 \<le> r3" "r3 < 1461" by (simp_all add: r3_def)
  have bn: "0 \<le> n" "n < 365" by (simp_all add: n_def)
  have a0: "0 \<le> a" "a \<le> 24" using n0 s0 b1 by linarith+
  have bb: "0 \<le> b" "b \<le> 4" using s1 b1 b2 by linarith+
  have cc: "0 \<le> c" "c \<le> 24" using s2 b2 b3 by linarith+
  have ee: "0 \<le> e" "e \<le> 4" using s3 b3 bn by linarith+
  have unf: "ord2ymd ordinal =
      (if e = 4 \<or> b = 4 then (a * 400 + 1 + b * 100 + c * 4 + e - 1, 12, 31)
       else (case month_and_day (e = 3 \<and> (c \<noteq> 24 \<or> b = 3)) n of
               (month, day) \<Rightarrow> (a * 400 + 1 + b * 100 + c * 4 + e, month, day)))"
    by (simp only: ord2ymd_def Let_def n0_def a_def r1_def b_def r2_def c_def r3_def e_def n_def)
  have tab12: "DAYS_BEFORE_MONTH ! 12 = 334" "DAYS_IN_MONTH ! 12 = 31"
    by (simp_all add: DAYS_BEFORE_MONTH_def DAYS_IN_MONTH_def)
  consider (century) "b = 4" | (leap_end) "b \<le> 3" "e = 4" | (plain) "b \<le> 3" "e \<le> 3"
    using bb ee by linarith
  then show ?thesis
  proof cases
    case century
    have v: "r2 = 0" "r1 = 146096" using century s1 b1 b2 by linarith+
    then have "c = 0" "r3 = 0" by (simp_all add: c_def r3_def)
    then have "e = 0" by (simp add: e_def)
    have y: "y = a * 400 + 1 + 3 * 100 + 24 * 4 + 3" and m: "m = 12" and d: "d = 31"
      using res unf century \<open>c = 0\<close> \<open>e = 0\<close> by simp_all
    have dby: "days_before_year y = 146097 * a + 36524 * 3 + 1461 * 24 + 365 * 3"
      unfolding y by (rule days_before_year_split) simp_all
    have lp: "is_leap y = (3 = (3::int) \<and> ((24::int) \<noteq> 24 \<or> 3 = (3::int)))"
      unfolding y by (rule is_leap_split) simp_all
    have a23: "a \<le> 23" using n0 s0 v by linarith
    have "ymd2ord y m d = ordinal"
      using dby lp s0 v
      by (simp add: ymd2ord_def days_before_month_def m d tab12 n0_def)
    moreover have "d \<le> days_in_month y m"
      by (simp add: days_in_month_def m d tab12)
    moreover have "1 \<le> y" "y \<le> 9999" using a0 a23 y by simp_all
    ultimately show ?thesis by (simp add: m d)
  next
    case leap_end
    have v: "n = 0" "r3 = 1460" using leap_end s3 b3 bn by linarith+
    have c23: "c \<le> 23" using s2 b2 v by linarith
    have y: "y = a * 400 + 1 + b * 100 + c * 4 + 3" and m: "m = 12" and d: "d = 31"
      using res unf leap_end by simp_all
    have dby: "days_before_year y = 146097 * a + 36524 * b + 1461 * c + 365 * 3"
      unfolding y by (rule days_before_year_split) (use bb cc leap_end in simp_all)
    have "is_leap y = (3 = (3::int) \<and> (c \<noteq> 24 \<or> b = 3))"
      unfolding y by (rule is_leap_split) (use bb cc leap_end in simp_all)
    then have lp: "is_leap y" using c23 by simp
    have "ymd2ord y m d = ordinal"
      using dby lp s0 s1 s2 v
      by (simp add: ymd2ord_def days_before_month_def m d tab12 n0_def)
    moreover have "d \<le> days_in_month y m"
      by (simp add: days_in_month_def m d tab12)
    moreover have "1 \<le> y" "y \<le> 9999" using a0 bb c23 cc leap_end y by simp_all
    ultimately show ?thesis by (simp add: m d)
  next
    case plain
    define leap where "leap = (e = 3 \<and> (c \<noteq> 24 \<or> b = 3))"
    obtain m' d' where md: "month_and_day leap n = (m', d')"
      by (cases "month_and_day leap n")
    have ne: "\<not> (e = 4 \<or> b = 4)" using plain by simp
    have y: "y = a * 400 + 1 + b * 100 + c * 4 + e" and m: "m = m'" and d: "d = d'"
      using res unf ne md by (simp_all add: leap_def)
    have ok: "1 \<le> m \<and> m \<le> 12 \<and> 1 \<le> d
         \<and> d \<le> (if m = 2 \<and> leap then 29 else DAYS_IN_MONTH ! nat m)
         \<and> DAYS_BEFORE_MONTH ! nat m + (if m > 2 \<and> leap then 1 else 0) + d = n + 1"
      using month_and_day_ok [OF bn md] by (simp only: m d)
    have dby: "days_before_year y = 146097 * a + 36524 * b + 1461 * c + 365 * e"
      unfolding y by (rule days_before_year_split) (use bb cc ee plain in simp_all)
    have lp: "is_leap y = leap"
      unfolding y leap_def by (rule is_leap_split) (use bb cc ee plain in simp_all)
    have "ymd2ord y m d = ordinal"
      using dby ok s0 s1 s2 s3
      by (simp add: ymd2ord_def days_before_month_def lp n0_def)
    moreover have "d \<le> days_in_month y m"
      using ok by (simp add: days_in_month_def lp)
    moreover have "1 \<le> y" using a0 bb cc ee y by simp
    moreover have "y \<le> 9999"
    proof (cases "a = 24")
      case False
      then have "a \<le> 23" using a0 by simp
      then show ?thesis using bb cc ee plain y by simp
    next
      case True
      have r: "r1 \<le> 145730" using n0 s0 True by simp
      have "\<not> (b = 3 \<and> c = 24 \<and> e = 3)" using r s1 s2 s3 bn by auto
      then have "b * 100 + c * 4 + e \<le> 398" using bb cc ee plain by linarith
      then show ?thesis using True y by simp
    qed
    ultimately show ?thesis using ok by simp
  qed
qed

section \<open>Writing and reading a timestamp\<close>

lemma length_zero_padded: "length (zero_padded w n) = w"
  by (induction w arbitrary: n) simp_all

lemma digit_char_digit:
  assumes "d < 10"
  shows "is_digit (digit_char d)" and "int (of_char (digit_char d)) - 48 = int d"
proof -
  have "(48 + d) mod 256 = 48 + d" using assms by simp
  then have v: "(of_char (digit_char d) :: nat) = 48 + d"
    by (simp add: digit_char_def)
  show "is_digit (digit_char d)" using v assms by (simp add: is_digit_def)
  show "int (of_char (digit_char d)) - 48 = int d" using v by simp
qed

lemma parse_digits_append:
  "parse_digits (xs @ ys) acc =
     (case parse_digits xs acc of None \<Rightarrow> None | Some a \<Rightarrow> parse_digits ys a)"
  by (induction xs arbitrary: acc) simp_all

lemma parse_zero_padded:
  "0 \<le> n \<Longrightarrow> n < 10 ^ w \<Longrightarrow> parse_digits (zero_padded w n) acc = Some (acc * 10 ^ w + n)"
proof (induction w arbitrary: n)
  case 0
  then show ?case by simp
next
  case (Suc w)
  have q: "0 \<le> n div 10" "n div 10 < 10 ^ w" using Suc.prems by simp_all
  have r: "nat (n mod 10) < 10" by simp
  have last: "parse_digits [digit_char (nat (n mod 10))] a = Some (a * 10 + n mod 10)" for a
    using digit_char_digit [OF r] by simp
  have "parse_digits (zero_padded (Suc w) n) acc
          = Some ((acc * 10 ^ w + n div 10) * 10 + n mod 10)"
    by (simp add: parse_digits_append Suc.IH [OF q] last del: parse_digits.simps)
  also have "(acc * 10 ^ w + n div 10) * 10 + n mod 10 = acc * 10 ^ Suc w + n"
    by (simp add: algebra_simps)
  finally show ?case .
qed

lemma list4: "length xs = 4 \<Longrightarrow> \<exists>a b c d. xs = [a, b, c, d]"
  by (auto simp: length_Suc_conv numeral_eq_Suc)

lemma list2: "length xs = 2 \<Longrightarrow> \<exists>a b. xs = [a, b]"
  by (auto simp: length_Suc_conv numeral_eq_Suc)

lemma iso_shape:
  assumes "length Y = 4" "length M = 2" "length D = 2" "length H = 2" "length Mi = 2"
    "length S = 2"
    and s: "s = Y @ ''-'' @ M @ ''-'' @ D @ ''T'' @ H @ '':'' @ Mi @ '':'' @ S @ F"
  shows "length s = 19 + length F"
    and "s ! 4 = CHR ''-''" "s ! 7 = CHR ''-''" "s ! 10 = CHR ''T''"
      "s ! 13 = CHR '':''" "s ! 16 = CHR '':''"
    and "take 4 s = Y" "take 2 (drop 5 s) = M" "take 2 (drop 8 s) = D"
      "take 2 (drop 11 s) = H" "take 2 (drop 14 s) = Mi" "take 2 (drop 17 s) = S"
    and "drop 19 s = F"
proof -
  obtain y1 y2 y3 y4 where Y: "Y = [y1, y2, y3, y4]" using list4 [OF assms(1)] by blast
  obtain m1 m2 where M: "M = [m1, m2]" using list2 [OF assms(2)] by blast
  obtain d1 d2 where D: "D = [d1, d2]" using list2 [OF assms(3)] by blast
  obtain h1 h2 where H: "H = [h1, h2]" using list2 [OF assms(4)] by blast
  obtain i1 i2 where Mi: "Mi = [i1, i2]" using list2 [OF assms(5)] by blast
  obtain s1 s2 where S: "S = [s1, s2]" using list2 [OF assms(6)] by blast
  have e: "s = [y1, y2, y3, y4, CHR ''-'', m1, m2, CHR ''-'', d1, d2, CHR ''T'', h1, h2,
                CHR '':'', i1, i2, CHR '':'', s1, s2] @ F"
    by (simp add: s Y M D H Mi S)
  show "length s = 19 + length F" by (simp add: e)
  show "s ! 4 = CHR ''-''" "s ! 7 = CHR ''-''" "s ! 10 = CHR ''T''"
      "s ! 13 = CHR '':''" "s ! 16 = CHR '':''"
    by (simp_all add: e nth_append)
  show "take 4 s = Y" "take 2 (drop 5 s) = M" "take 2 (drop 8 s) = D"
      "take 2 (drop 11 s) = H" "take 2 (drop 14 s) = Mi" "take 2 (drop 17 s) = S"
    by (simp_all add: e Y M D H Mi S)
  show "drop 19 s = F" by (simp add: e)
qed

lemma days_in_month_le_31:
  assumes "1 \<le> m" "m \<le> 12"
  shows "days_in_month y m \<le> 31"
proof -
  have "m \<in> set [1..12]" using assms by simp
  then have "m \<in> {1, 2, 3, 4, 5, 6, 7, 8, 9, 10, 11, 12}"
    by (simp add: upto.simps)
  then show ?thesis
    by (auto simp: days_in_month_def DAYS_IN_MONTH_def)
qed

lemma time_of_day_fields:
  assumes "0 \<le> tod" "tod < 86400000000"
  shows "0 \<le> tod div 3600000000" "tod div 3600000000 \<le> 23"
    and "tod div 3600000000 * 3600000000 + tod div 60000000 mod 60 * 60000000
           + tod div 1000000 mod 60 * 1000000 + tod mod 1000000 = (tod::int)"
proof -
  define q1 where "q1 = tod div 1000000"
  define q2 where "q2 = q1 div 60"
  have m: "tod div 60000000 = q2"
    using zdiv_zmult2_eq [of 60 tod 1000000] by (simp add: q1_def q2_def)
  have h: "tod div 3600000000 = q2 div 60"
    using zdiv_zmult2_eq [of 60 tod 60000000] m by simp
  have e1: "tod = q1 * 1000000 + tod mod 1000000" by (simp add: q1_def)
  have e2: "q1 = q2 * 60 + q1 mod 60" by (simp add: q2_def)
  have e3: "q2 = q2 div 60 * 60 + q2 mod 60" by simp
  show "0 \<le> tod div 3600000000" using assms(1) by (simp add: pos_imp_zdiv_nonneg_iff)
  show "tod div 3600000000 \<le> 23" using assms by linarith
  have "q2 div 60 * 3600000000 + q2 mod 60 * 60000000 + q1 mod 60 * 1000000
          + tod mod 1000000 = tod"
    using e1 e2 e3 by linarith
  then show "tod div 3600000000 * 3600000000 + tod div 60000000 mod 60 * 60000000
           + tod div 1000000 mod 60 * 1000000 + tod mod 1000000 = tod"
    by (simp add: h m q1_def)
qed

lemma datetime_round_trip:
  assumes v: "valid_datetime t"
  shows "datetime_from_str (datetime_to_str t) = Inr t"
proof -
  define ordinal where "ordinal = t div us_per_day + 1"
  define tod where "tod = t mod us_per_day"
  define hour where "hour = tod div 3600000000"
  define minute where "minute = tod div 60000000 mod 60"
  define second where "second = tod div 1000000 mod 60"
  define micro where "micro = tod mod 1000000"
  obtain y m d where ymd: "ord2ymd ordinal = (y, m, d)"
    by (cases "ord2ymd ordinal")
  have t0: "0 \<le> t" "t < MAXORDINAL * us_per_day" using v by (simp_all add: valid_datetime_def)
  have upd: "0 < us_per_day" by (simp add: us_per_day_def)
  have o1: "1 \<le> ordinal"
    using t0(1) upd by (simp add: ordinal_def pos_imp_zdiv_nonneg_iff)
  have "t div us_per_day < MAXORDINAL"
    using t0(2) unfolding us_per_day_def MAXORDINAL_def by linarith
  then have o2: "ordinal \<le> MAXORDINAL" by (simp add: ordinal_def)
  have cal: "1 \<le> y" "y \<le> 9999" "1 \<le> m" "m \<le> 12" "1 \<le> d" "d \<le> days_in_month y m"
    "ymd2ord y m d = ordinal"
    using ord2ymd_inverse [OF o1 o2 ymd] by simp_all
  have d31: "d \<le> 31" using cal(6) days_in_month_le_31 [OF cal(3,4), of y] by simp
  have tod: "0 \<le> tod" "tod < 86400000000" by (simp_all add: tod_def us_per_day_def)
  have hr: "0 \<le> hour" "hour \<le> 23"
    using time_of_day_fields(1,2) [OF tod] by (simp_all add: hour_def)
  have mi: "0 \<le> minute" "minute \<le> 59" by (simp_all add: minute_def)
  have se: "0 \<le> second" "second \<le> 59" by (simp_all add: second_def)
  have us: "0 \<le> micro" "micro < 1000000" by (simp_all add: micro_def)
  have sum: "hour * 3600000000 + minute * 60000000 + second * 1000000 + micro = tod"
    using time_of_day_fields(3) [OF tod] by (simp add: hour_def minute_def second_def micro_def)
  have whole: "(ordinal - 1) * us_per_day + tod = t"
    by (simp add: ordinal_def tod_def)
  define F where "F = (if micro = 0 then [] else ''.'' @ zero_padded 6 micro)"
  define s where "s = datetime_to_str t"
  have s: "s = zero_padded 4 y @ ''-'' @ zero_padded 2 m @ ''-'' @ zero_padded 2 d @ ''T''
             @ zero_padded 2 hour @ '':'' @ zero_padded 2 minute @ '':''
             @ zero_padded 2 second @ F"
    unfolding s_def datetime_to_str_def Let_def
      ordinal_def [symmetric] tod_def [symmetric] ymd prod.case
      hour_def [symmetric] minute_def [symmetric] second_def [symmetric] micro_def [symmetric]
      F_def [symmetric]
    by (rule refl)
  note shape = iso_shape [OF length_zero_padded length_zero_padded length_zero_padded
      length_zero_padded length_zero_padded length_zero_padded s]
  have py: "parse_digits (take 4 s) 0 = Some y"
    using parse_zero_padded [of y 4 0] cal(1,2) by (simp add: shape)
  have pm: "parse_digits (take 2 (drop 5 s)) 0 = Some m"
    using parse_zero_padded [of m 2 0] cal(3,4) by (simp add: shape)
  have pd: "parse_digits (take 2 (drop 8 s)) 0 = Some d"
    using parse_zero_padded [of d 2 0] cal(5) d31 by (simp add: shape)
  have ph: "parse_digits (take 2 (drop 11 s)) 0 = Some hour"
    using parse_zero_padded [of hour 2 0] hr by (simp add: shape)
  have pi: "parse_digits (take 2 (drop 14 s)) 0 = Some minute"
    using parse_zero_padded [of minute 2 0] mi by (simp add: shape)
  have ps: "parse_digits (take 2 (drop 17 s)) 0 = Some second"
    using parse_zero_padded [of second 2 0] se by (simp add: shape)
  have d20: "drop 20 s = drop 1 F"
  proof -
    have "drop 20 s = drop 1 (drop 19 s)" by simp
    then show ?thesis by (simp only: shape(13))
  qed
  have len: "length s = 19 \<or> length s = 26"
    and dot: "length s = 26 \<longrightarrow> s ! 19 = CHR ''.''"
    and pu: "parse_digits (drop 20 s) 0 = Some micro"
  proof -
    show "length s = 19 \<or> length s = 26"
      by (simp add: shape(1) F_def length_zero_padded)
    show "length s = 26 \<longrightarrow> s ! 19 = CHR ''.''"
    proof
      assume "length s = 26"
      then have "micro \<noteq> 0" by (auto simp: shape(1) F_def)
      then have "drop 19 s = CHR ''.'' # zero_padded 6 micro" by (simp add: shape(13) F_def)
      then show "s ! 19 = CHR ''.''" by (rule nth_via_drop)
    qed
    show "parse_digits (drop 20 s) 0 = Some micro"
    proof (cases "micro = 0")
      case True
      then show ?thesis by (simp add: d20 F_def)
    next
      case False
      then show ?thesis
        using parse_zero_padded [of micro 6 0] us by (simp add: d20 F_def)
    qed
  qed
  have "datetime_from_str s
          = Inr ((ymd2ord y m d - 1) * us_per_day + hour * 3600000000 + minute * 60000000
                 + second * 1000000 + micro)"
    using len dot cal hr mi se
    by (auto simp: datetime_from_str_def shape(2-6) py pm pd ph pi ps pu)
  also have "(ymd2ord y m d - 1) * us_per_day + hour * 3600000000 + minute * 60000000
                 + second * 1000000 + micro = t"
    using sum whole cal(7) by simp
  finally show ?thesis by (simp only: s_def)
qed

section \<open>Writing and reading habits and owners\<close>

lemma parse_history_round_trip:
  "list_all valid_datetime ts \<Longrightarrow> parse_history (map datetime_to_str ts) = Inr ts"
  by (induction ts) (simp_all add: datetime_round_trip)

lemma Habit_round_trip:
  assumes "valid_habit h"
  shows "Habit_from_dict c today (Habit_to_dict h) = (Inr (from_periodicity h), advance_counter h c)"
proof -
  have p: "\<not> length (periodicity h) < 2" and cr: "datetime_from_str (datetime_to_str (creation h)) = Inr (creation h)"
    and hs: "parse_history (map datetime_to_str (history h)) = Inr (history h)"
    using assms by (simp_all add: valid_habit_def datetime_round_trip parse_history_round_trip)
  show ?thesis
    by (cases h)
      (use p cr hs in \<open>simp add: Habit_from_dict_def Habit_to_dict_def Habit_init_def
        from_periodicity_def advance_counter_def\<close>)
qed

lemma habits_round_trip:
  "list_all valid_habit hs \<Longrightarrow>
     habits_from_dicts c today (map Habit_to_dict hs)
       = (Inr (map from_periodicity hs), fold advance_counter hs c)"
  by (induction hs arbitrary: c) (simp_all add: Habit_round_trip)

lemma User_round_trip:
  assumes "list_all valid_habit (habits usr)"
  shows "User_from_dict c today (User_to_dict usr)
           = (Inr (usr\<lparr>habits := map from_periodicity (habits usr)\<rparr>),
              fold advance_counter (habits usr) c)"
  by (cases usr)
    (use habits_round_trip [OF assms] in \<open>simp add: User_from_dict_def User_to_dict_def\<close>)

lemma from_periodicity_fields:
  "habit_id (from_periodicity h) = habit_id h" "name (from_periodicity h) = name h"
  "periodicity (from_periodicity h) = periodicity h" "history (from_periodicity h) = history h"
  "streak (from_periodicity h) = streak h" "longest_streak (from_periodicity h) = longest_streak h"
  "creation (from_periodicity h) = creation h"
  by (simp_all add: from_periodicity_def)

lemma from_periodicity_id:
  "frequency h = periodicity h ! 0 \<Longrightarrow> period h = periodicity h ! 1 \<Longrightarrow> from_periodicity h = h"
  by (simp add: from_periodicity_def)

section \<open>The claims about the streak engine\<close>

text \<open>
  Claim C1, as the code has it. For a non-empty history of datetimes, a frequency of at
  least 1 and a period of at least one day, let \<open>n\<close> be the number of consecutive
  satisfied windows walked backward from the anchor: the windows \<open>0, \<dots>, n - 1\<close> each
  hold at least \<open>frequency\<close> check-ins (both bounds counted), window \<open>n\<close> holds fewer.
  When the period is at most 999999999 days and the lower bound of window \<open>n\<close> is not
  before 0001-01-01, \<^verbatim>\<open>update_streak\<close> returns with the streak \<open>n\<close> and the longest
  streak the maximum of its old value and \<open>n\<close>; otherwise it raises \<^verbatim>\<open>OverflowError\<close>
  and assigns nothing. Scenario E: for the habit "Read Book" of the test data (3 times
  per 7 days, check-ins on the first three days of each of 4 weeks), with a start date
  at least 12 days into the time line and no reference time or one at or after the
  last check-in, the streak is 4 and the longest streak is 4.
\<close>

theorem update_streak_walks_windows:
  "(history self \<noteq> [] \<and> list_all valid_datetime (history self)
      \<and> (\<forall>u. update_time = Some u \<longrightarrow> valid_datetime u)
      \<and> 1 \<le> frequency self \<and> 1 \<le> period self \<longrightarrow>
      (\<exists>n. (\<forall>k<n. satisfied (history self) (frequency self)
                       (anchor (history self) update_time) (period self * us_per_day) k)
          \<and> \<not> satisfied (history self) (frequency self)
                       (anchor (history self) update_time) (period self * us_per_day) n
          \<and> update_streak self update_time
              = Some (if period self \<le> 999999999
                         \<and> 0 \<le> anchor (history self) update_time
                                  - (int n + 1) * (period self * us_per_day)
                      then Inr (self\<lparr>streak := int n,
                                    longest_streak := max (longest_streak self) (int n)\<rparr>)
                      else Inl OverflowError)))
   \<and> (Habit_init c created nm [3, 7] cr hid = (Inr habit4, c')
        \<and> (reference_time = None
            \<or> (\<exists>u. reference_time = Some u \<and> start_date + 23 * us_per_day \<le> u))
        \<and> 12 * us_per_day \<le> start_date \<and> valid_datetime (start_date + 23 * us_per_day) \<longrightarrow>
       map_option (map_sum id (\<lambda>h. (streak h, longest_streak h)))
         (update_streak (read_book_checkins today start_date habit4) reference_time)
         = Some (Inr (4, 4)))"
proof (intro conjI impI)
  assume a: "history self \<noteq> [] \<and> list_all valid_datetime (history self)
      \<and> (\<forall>u. update_time = Some u \<longrightarrow> valid_datetime u)
      \<and> 1 \<le> frequency self \<and> 1 \<le> period self"
  then have v: "valid_datetime (anchor (history self) update_time)"
    using anchor_valid by blast
  have ne: "history self \<noteq> []" and f: "1 \<le> frequency self" and p: "1 \<le> period self"
    using a by simp_all
  show "\<exists>n. (\<forall>k<n. satisfied (history self) (frequency self)
                       (anchor (history self) update_time) (period self * us_per_day) k)
          \<and> \<not> satisfied (history self) (frequency self)
                       (anchor (history self) update_time) (period self * us_per_day) n
          \<and> update_streak self update_time
              = Some (if period self \<le> 999999999
                         \<and> 0 \<le> anchor (history self) update_time
                                  - (int n + 1) * (period self * us_per_day)
                      then Inr (self\<lparr>streak := int n,
                                    longest_streak := max (longest_streak self) (int n)\<rparr>)
                      else Inl OverflowError)"
    using update_streak_windows [OF ne f p v, unfolded store_streak_eq] .
next
  assume "Habit_init c created nm [3, 7] cr hid = (Inr habit4, c')
        \<and> (reference_time = None
            \<or> (\<exists>u. reference_time = Some u \<and> start_date + 23 * us_per_day \<le> u))
        \<and> 12 * us_per_day \<le> start_date \<and> valid_datetime (start_date + 23 * us_per_day)"
  then show "map_option (map_sum id (\<lambda>h. (streak h, longest_streak h)))
         (update_streak (read_book_checkins today start_date habit4) reference_time)
         = Some (Inr (4, 4))"
    using scenario_E by blast
qed

theorem update_streak_walks_windows_counterexample:
  "history long_period \<noteq> []
   \<and> frequency long_period = 1 \<and> period long_period = 1000000
   \<and> update_streak long_period None = Some (Inl OverflowError)
   \<and> frequency late_in_week = 3 \<and> period late_in_week = 7
   \<and> map_option (map_sum id (\<lambda>h. (streak h, longest_streak h)))
       (update_streak late_in_week (Some (63871329600000000 + 28 * us_per_day)))
     = Some (Inr (3, 3))"
  using long_period_overflow late_in_week_streak
  by (simp add: long_period_def late_in_week_def)

theorem update_streak_walks_windows_witness:
  "(\<exists>n. (\<forall>k<n. satisfied (history three_days) (frequency three_days)
                   (anchor (history three_days) (Some 63871545600000000))
                   (period three_days * us_per_day) k)
        \<and> \<not> satisfied (history three_days) (frequency three_days)
                   (anchor (history three_days) (Some 63871545600000000))
                   (period three_days * us_per_day) n
        \<and> update_streak three_days (Some 63871545600000000)
            = Some (if period three_days \<le> 999999999
                       \<and> 0 \<le> anchor (history three_days) (Some 63871545600000000)
                                - (int n + 1) * (period three_days * us_per_day)
                    then Inr (three_days\<lparr>streak := int n,
                                  longest_streak := max (longest_streak three_days) (int n)\<rparr>)
                    else Inl OverflowError))
   \<and> Habit_init 3 0 ''Read Book'' [3, 7] None None
       = (Inr \<lparr>habit_id = 3, name = ''Read Book'', periodicity = [3, 7],
                frequency = 3, period = 7, history = [], streak = 0, longest_streak = 0,
                creation = 0\<rparr>, 4)
   \<and> map_option (map_sum id (\<lambda>h. (streak h, longest_streak h)))
         (update_streak (read_book_checkins 0 exercise_start
            \<lparr>habit_id = 3, name = ''Read Book'', periodicity = [3, 7],
                frequency = 3, period = 7, history = [], streak = 0, longest_streak = 0,
                creation = 0\<rparr>) None)
         = Some (Inr (4, 4))"
proof -
  have i: "Habit_init 3 0 ''Read Book'' [3, 7] None None
       = (Inr \<lparr>habit_id = 3, name = ''Read Book'', periodicity = [3, 7],
                frequency = 3, period = 7, history = [], streak = 0, longest_streak = 0,
                creation = 0\<rparr>, 4)"
    by (simp add: Habit_init_def)
  have h: "history three_days \<noteq> [] \<and> list_all valid_datetime (history three_days)
      \<and> (\<forall>u. Some (63871545600000000::int) = Some u \<longrightarrow> valid_datetime u)
      \<and> 1 \<le> frequency three_days \<and> 1 \<le> period three_days"
    by (simp add: three_days_def valid_datetime_def MAXORDINAL_def us_per_day_def)
  have r: "12 * us_per_day \<le> exercise_start
           \<and> valid_datetime (exercise_start + 23 * us_per_day)"
    by (simp add: exercise_start_def valid_datetime_def MAXORDINAL_def us_per_day_def)
  show ?thesis
    using update_streak_walks_windows [where self = three_days
        and update_time = "Some 63871545600000000" and c = 3 and created = 0
        and nm = "''Read Book''" and cr = None and hid = None and c' = 4
        and reference_time = None and today = 0 and start_date = exercise_start] h i r
    by simp
qed

text \<open>
  Claim C2. For a non-empty history, \<^verbatim>\<open>update_streak\<close> walks from the anchor of the
  specification: the reference time when it is given and strictly earlier than the
  latest check-in, the latest check-in otherwise. The anchor is never after the latest
  check-in, and a reference time at or after the latest check-in gives the result of a
  call without reference time.
\<close>

theorem update_streak_anchor:
  "history self \<noteq> [] \<Longrightarrow>
     update_streak self reference_time
       = (case timedelta_days (period self) of
            Inl e \<Rightarrow> Some (Inl e)
          | Inr period_length \<Rightarrow>
              (case datetime_sub (anchor (history self) reference_time) period_length of
                 Inl e \<Rightarrow> Some (Inl e)
               | Inr start_period \<Rightarrow>
                   map_option (map_sum id (store_streak self))
                     (streak_loop (history self) (frequency self) period_length 0
                        (anchor (history self) reference_time) start_period)))
     \<and> anchor (history self) reference_time
         = (case reference_time of
              None \<Rightarrow> Max (set (history self))
            | Some u \<Rightarrow> if u < Max (set (history self)) then u else Max (set (history self)))
     \<and> anchor (history self) reference_time \<le> Max (set (history self))
     \<and> ((\<exists>u. reference_time = Some u \<and> Max (set (history self)) \<le> u) \<longrightarrow>
          update_streak self reference_time = update_streak self None)"
proof (intro conjI impI)
  assume ne: "history self \<noteq> []"
  show "update_streak self reference_time
       = (case timedelta_days (period self) of
            Inl e \<Rightarrow> Some (Inl e)
          | Inr period_length \<Rightarrow>
              (case datetime_sub (anchor (history self) reference_time) period_length of
                 Inl e \<Rightarrow> Some (Inl e)
               | Inr start_period \<Rightarrow>
                   map_option (map_sum id (store_streak self))
                     (streak_loop (history self) (frequency self) period_length 0
                        (anchor (history self) reference_time) start_period)))"
    by (rule update_streak_unfold [OF ne])
  show "anchor (history self) reference_time
         = (case reference_time of
              None \<Rightarrow> Max (set (history self))
            | Some u \<Rightarrow> if u < Max (set (history self)) then u else Max (set (history self)))"
    by (cases reference_time) (simp_all add: anchor_def)
  show "anchor (history self) reference_time \<le> Max (set (history self))"
    by (simp add: anchor_def)
  assume "\<exists>u. reference_time = Some u \<and> Max (set (history self)) \<le> u"
  then have eq: "anchor (history self) reference_time = anchor (history self) None"
    by (auto simp: anchor_def)
  show "update_streak self reference_time = update_streak self None"
    unfolding update_streak_unfold [OF ne] eq by (rule refl)
qed

theorem update_streak_anchor_witness:
  "update_streak three_days (Some 63871545600000000) = update_streak three_days None
   \<and> anchor (history three_days) (Some 63871545600000000) = 63871459200000000
   \<and> anchor (history three_days) (Some 63871400000000000) = 63871400000000000
   \<and> update_streak three_days (Some 63871545600000000)
       = Some (Inr (three_days\<lparr>streak := 3, longest_streak := 3\<rparr>))"
proof -
  have ne: "history three_days \<noteq> []" by (simp add: three_days_def)
  have late: "\<exists>u. Some (63871545600000000::int) = Some u \<and> Max (set (history three_days)) \<le> u"
    by (simp add: three_days_def)
  have a1: "anchor (history three_days) (Some 63871545600000000) = 63871459200000000"
    using update_streak_anchor [OF ne, of "Some 63871545600000000"] by (simp add: three_days_def)
  have a2: "anchor (history three_days) (Some 63871400000000000) = 63871400000000000"
    using update_streak_anchor [OF ne, of "Some 63871400000000000"] by (simp add: three_days_def)
  have same: "update_streak three_days (Some 63871545600000000) = update_streak three_days None"
    using update_streak_anchor [OF ne, of "Some 63871545600000000"] late by blast
  have "update_streak three_days (Some 63871545600000000)
          = Some (Inr (three_days\<lparr>streak := 3, longest_streak := 3\<rparr>))"
    by (rule three_days_streak) simp
  with a1 a2 same show ?thesis by simp
qed

text \<open>
  Claim C3. With an empty history, whatever the frequency, the period and the
  reference time, \<^verbatim>\<open>update_streak\<close> returns the habit with the streak set to 0 and
  the longest streak (and everything else) as it was; it raises nothing.
\<close>

theorem update_streak_empty_history:
  "history self = [] \<Longrightarrow>
     update_streak self update_time = Some (Inr (self\<lparr>streak := 0\<rparr>))
     \<and> (\<exists>h'. update_streak self update_time = Some (Inr h') \<and> streak h' = 0
               \<and> longest_streak h' = longest_streak self)"
  by (simp add: update_streak_def)

theorem update_streak_empty_history_witness:
  "update_streak no_checkins (Some 42) = Some (Inr (no_checkins\<lparr>streak := 0\<rparr>))
   \<and> map_option (map_sum id longest_streak) (update_streak no_checkins (Some 42))
       = Some (Inr 9)
   \<and> map_option (map_sum id streak) (update_streak no_checkins None) = Some (Inr 0)"
proof -
  have e: "history no_checkins = []" by (simp add: no_checkins_def)
  show ?thesis
    using update_streak_empty_history [OF e, of "Some 42"]
      update_streak_empty_history [OF e, of None]
    by (simp add: no_checkins_def)
qed



text \<open>
  Claim C8, as the code has it. For the daily habit "Exercise" of the test data, whose
  28-day history skips the days 0, 7, 14 and 21, with a start date at least one day
  into the time line, \<^verbatim>\<open>update_streak\<close> anchored at the end of the history yields the
  streak 27 (and the longest streak 27), not the 6 days after the most recent missed
  day: the check-ins are exactly one day apart and a window includes both its bounds,
  so each of the windows \<open>0, \<dots>, 26\<close> holds a check-in of one of its two bounding
  days, and the walk stops only at window 27, which ends at the missed day 0.
\<close>

theorem daily_streak_spans_missed_days:
  "Habit_init c created nm [1, 1] cr hid = (Inr habit2, c') \<Longrightarrow>
   update_time = None \<or> (\<exists>u. update_time = Some u \<and> start_date + 27 * us_per_day \<le> u) \<Longrightarrow>
   us_per_day \<le> start_date \<Longrightarrow> valid_datetime (start_date + 27 * us_per_day) \<Longrightarrow>
     map_option (map_sum id (\<lambda>h. (streak h, longest_streak h)))
       (update_streak (exercise_checkins today start_date habit2) update_time)
         = Some (Inr (27, 27))
     \<and> history (exercise_checkins today start_date habit2)
         = map (\<lambda>d. start_date + d * us_per_day) exercise_days
     \<and> (\<forall>k<27. satisfied (history (exercise_checkins today start_date habit2)) 1
                  (start_date + 27 * us_per_day) (1 * us_per_day) k)
     \<and> \<not> satisfied (history (exercise_checkins today start_date habit2)) 1
            (start_date + 27 * us_per_day) (1 * us_per_day) 27"
proof -
  assume init: "Habit_init c created nm [1, 1] cr hid = (Inr habit2, c')"
    and ut: "update_time = None
             \<or> (\<exists>u. update_time = Some u \<and> start_date + 27 * us_per_day \<le> u)"
    and lo: "us_per_day \<le> start_date" and hi: "valid_datetime (start_date + 27 * us_per_day)"
  have hist: "history (exercise_checkins today start_date habit2)
         = map (\<lambda>d. start_date + d * us_per_day) exercise_days"
    by (rule exercise_history) (rule Habit_init_fresh(1) [OF init])
  have a: "start_date + 27 * us_per_day = start_date + 2332800000000"
    by (simp add: us_per_day_def)
  have s: "map_option (map_sum id (\<lambda>h. (streak h, longest_streak h)))
       (update_streak (exercise_checkins today start_date habit2) update_time)
         = Some (Inr (27, 27))"
    by (rule exercise_streak [OF init ut lo hi])
  have w1: "\<forall>k<27. satisfied (history (exercise_checkins today start_date habit2)) 1
                  (start_date + 27 * us_per_day) (1 * us_per_day) k"
    unfolding hist a by (rule exercise_windows(1))
  have w2: "\<not> satisfied (history (exercise_checkins today start_date habit2)) 1
            (start_date + 27 * us_per_day) (1 * us_per_day) 27"
    unfolding hist a by (rule exercise_windows(2))
  show ?thesis using s hist w1 w2 by blast
qed

theorem daily_streak_spans_missed_days_counterexample:
  "map_option (map_sum id streak)
     (update_streak (exercise_checkins 0 exercise_start exercise_habit) None)
     = Some (Inr 27)
   \<and> map_option (map_sum id streak)
       (update_streak (exercise_checkins 0 exercise_start exercise_habit) None)
     \<noteq> Some (Inr (int days_after_last_miss))"
proof -
  have i: "Habit_init 1 63873748800000000 ''Exercise'' [1, 1] None None
             = (Inr exercise_habit, 2)"
    by (simp add: Habit_init_def exercise_habit_def)
  have lo: "us_per_day \<le> exercise_start"
    by (simp add: exercise_start_def us_per_day_def)
  have hi: "valid_datetime (exercise_start + 27 * us_per_day)"
    by (simp add: exercise_start_def valid_datetime_def MAXORDINAL_def us_per_day_def)
  have "map_option (map_sum id (\<lambda>h. (streak h, longest_streak h)))
          (update_streak (exercise_checkins 0 exercise_start exercise_habit) None)
        = Some (Inr (27, 27))"
    by (rule exercise_streak [OF i _ lo hi]) simp
  then obtain z where z: "update_streak (exercise_checkins 0 exercise_start exercise_habit) None
      = Some z" and m: "map_sum id (\<lambda>h. (streak h, longest_streak h)) z = Inr (27, 27)"
    by auto
  from map_sum_id_Inr [OF m] obtain b where "z = Inr b" "streak b = 27" by auto
  with z show ?thesis by (simp add: days_after_last_miss_6)
qed

theorem daily_streak_spans_missed_days_witness:
  "Habit_init 1 63873748800000000 ''Exercise'' [1, 1] None None = (Inr exercise_habit, 2)
   \<and> us_per_day \<le> exercise_start
   \<and> valid_datetime (exercise_start + 27 * us_per_day)
   \<and> map_option (map_sum id (\<lambda>h. (streak h, longest_streak h)))
       (update_streak (exercise_checkins 0 exercise_start exercise_habit) None)
         = Some (Inr (27, 27))
   \<and> \<not> satisfied (history (exercise_checkins 0 exercise_start exercise_habit)) 1
          (exercise_start + 27 * us_per_day) (1 * us_per_day) 27"
proof -
  have i: "Habit_init 1 63873748800000000 ''Exercise'' [1, 1] None None
             = (Inr exercise_habit, 2)"
    by (simp add: Habit_init_def exercise_habit_def)
  have u: "(None :: datetime option) = None
           \<or> (\<exists>u. (None :: datetime option) = Some u \<and> exercise_start + 27 * us_per_day \<le> u)"
    by simp
  have lo: "us_per_day \<le> exercise_start"
    by (simp add: exercise_start_def us_per_day_def)
  have hi: "valid_datetime (exercise_start + 27 * us_per_day)"
    by (simp add: exercise_start_def valid_datetime_def MAXORDINAL_def us_per_day_def)
  show ?thesis
    using daily_streak_spans_missed_days [OF i u lo hi, where today = 0] i lo hi by blast
qed

text \<open>
  Claim C10, as the code has it. For every history, every frequency of at least 1 and
  every period of at least one day, the loop of \<^verbatim>\<open>update_streak\<close> is left after
  finitely many windows, from any window and any count: each window is at least one
  day long, which is how far a satisfied window moves the bounds back, and the loop is
  left either at the first window \<open>n\<close> with fewer than \<open>frequency\<close> check-ins, with the
  count raised by \<open>n\<close>, or before that by the \<^verbatim>\<open>OverflowError\<close> of a window bound
  before 0001-01-01, which is what happens exactly when the lower bound of window
  \<open>n\<close> is before 0001-01-01. So \<^verbatim>\<open>update_streak\<close> returns or raises.
\<close>

theorem streak_loop_terminates:
  "1 \<le> freq \<Longrightarrow> 1 \<le> period_days \<Longrightarrow>
     (\<exists>r. streak_loop hist freq (period_days * us_per_day) count end_period
            (end_period - period_days * us_per_day) = Some r)
     \<and> (valid_datetime (end_period - period_days * us_per_day) \<longrightarrow>
          (\<exists>n. (\<forall>k<n. satisfied hist freq end_period (period_days * us_per_day) k)
              \<and> \<not> satisfied hist freq end_period (period_days * us_per_day) n
              \<and> streak_loop hist freq (period_days * us_per_day) count end_period
                   (end_period - period_days * us_per_day)
                  = Some (if 0 \<le> end_period - (int n + 1) * (period_days * us_per_day)
                          then Inr (count + int n) else Inl OverflowError)))
     \<and> us_per_day \<le> period_days * us_per_day
     \<and> (history self = hist \<and> frequency self = freq \<and> period self = period_days
          \<longrightarrow> (\<exists>r. update_streak self update_time = Some r))"
proof (intro conjI impI)
  assume f: "1 \<le> freq" and p: "1 \<le> period_days"
  have P: "0 < period_days * us_per_day" by (rule days_pos [OF p])
  obtain n where n: "\<forall>k<n. satisfied hist freq end_period (period_days * us_per_day) k"
    "\<not> satisfied hist freq end_period (period_days * us_per_day) n"
    using first_unsatisfied_window [OF f P] by blast
  show "\<exists>r. streak_loop hist freq (period_days * us_per_day) count end_period
            (end_period - period_days * us_per_day) = Some r"
    by (rule streak_loop_returns [OF n])
  show "us_per_day \<le> period_days * us_per_day"
    using p by (simp add: us_per_day_def)
  show "\<exists>n. (\<forall>k<n. satisfied hist freq end_period (period_days * us_per_day) k)
              \<and> \<not> satisfied hist freq end_period (period_days * us_per_day) n
              \<and> streak_loop hist freq (period_days * us_per_day) count end_period
                   (end_period - period_days * us_per_day)
                  = Some (if 0 \<le> end_period - (int n + 1) * (period_days * us_per_day)
                          then Inr (count + int n) else Inl OverflowError)"
    if v: "valid_datetime (end_period - period_days * us_per_day)"
    using streak_loop_result [OF P n v] n by blast
  show "\<exists>r. update_streak self update_time = Some r"
    if s: "history self = hist \<and> frequency self = freq \<and> period self = period_days"
    using update_streak_returns [of self update_time] f p s by blast
qed

theorem streak_loop_terminates_counterexample:
  "streak_loop (history first_days) 1 (1 * us_per_day) 0 172800000000 86400000000
     = Some (Inl OverflowError)
   \<and> satisfied (history first_days) 1 172800000000 (1 * us_per_day) 0
   \<and> satisfied (history first_days) 1 172800000000 (1 * us_per_day) 1
   \<and> update_streak first_days None = Some (Inl OverflowError)
   \<and> update_streak long_period None = Some (Inl OverflowError)"
proof -
  have s: "satisfied (history first_days) 1 172800000000 (1 * us_per_day) 0"
    "satisfied (history first_days) 1 172800000000 (1 * us_per_day) 1"
    by (simp_all add: satisfied_def window_count_def first_days_def us_per_day_def)
  show ?thesis
    using first_days_loop first_days_overflow long_period_overflow s by simp
qed

theorem streak_loop_terminates_witness:
  "(\<exists>r. streak_loop (history three_days) 1 (1 * us_per_day) 0 63871459200000000
            (63871459200000000 - 1 * us_per_day) = Some r)
   \<and> valid_datetime (63871459200000000 - 1 * us_per_day)
   \<and> (\<exists>n. (\<forall>k<n. satisfied (history three_days) 1 63871459200000000 (1 * us_per_day) k)
          \<and> \<not> satisfied (history three_days) 1 63871459200000000 (1 * us_per_day) n
          \<and> streak_loop (history three_days) 1 (1 * us_per_day) 0 63871459200000000
                   (63871459200000000 - 1 * us_per_day)
              = Some (if 0 \<le> 63871459200000000 - (int n + 1) * (1 * us_per_day)
                      then Inr (0 + int n) else Inl OverflowError))
   \<and> us_per_day \<le> 1 * us_per_day
   \<and> (\<exists>r. update_streak three_days None = Some r)"
proof -
  have s: "history three_days = history three_days \<and> frequency three_days = 1
           \<and> period three_days = 1"
    by (simp add: three_days_def)
  have v: "valid_datetime (63871459200000000 - 1 * us_per_day)"
    by (simp add: valid_datetime_def MAXORDINAL_def us_per_day_def)
  have one: "(1::int) \<le> 1" by simp
  show ?thesis
    using streak_loop_terminates [OF one one, of "history three_days" 0
        63871459200000000 three_days None] s v
    by blast
qed

section \<open>The claims about habits, identifiers and analytics\<close>

text \<open>
  Claim C6. After an owner (or a single habit) has been read from a persisted document,
  and after any further constructor calls, a habit created without an explicit
  identifier gets an identifier strictly greater than that of every habit restored
  from the document and of every habit created in between, and not below the counter
  before the reading; if a restored habit has the identifier 7, the new identifier is
  at least 8.
\<close>

theorem fresh_identifier_above_restored:
  "(User_from_dict c0 today doc = (Inr usr, c1)
      \<and> constructor_calls c1 today calls = (rs, c2)
      \<and> Habit_init c2 today nm pty cr None = (Inr new, c3) \<longrightarrow>
        (\<forall>h\<in>set (habits usr). habit_id h < habit_id new)
        \<and> (\<forall>h. Inr h \<in> set rs \<longrightarrow> habit_id h < habit_id new)
        \<and> c0 \<le> habit_id new
        \<and> ((\<exists>h\<in>set (habits usr). habit_id h = 7) \<longrightarrow> 8 \<le> habit_id new))
   \<and> (Habit_from_dict c0 today d = (Inr restored, c1)
      \<and> constructor_calls c1 today calls = (rs, c2)
      \<and> Habit_init c2 today nm pty cr None = (Inr new, c3) \<longrightarrow>
        doc_habit_id d = Some (habit_id restored)
        \<and> habit_id restored < habit_id new
        \<and> (doc_habit_id d = Some 7 \<longrightarrow> 8 \<le> habit_id new))"
proof (intro conjI impI)
  assume a: "User_from_dict c0 today doc = (Inr usr, c1)
      \<and> constructor_calls c1 today calls = (rs, c2)
      \<and> Habit_init c2 today nm pty cr None = (Inr new, c3)"
  then have u: "User_from_dict c0 today doc = (Inr usr, c1)"
    and cs: "constructor_calls c1 today calls = (rs, c2)"
    and n: "Habit_init c2 today nm pty cr None = (Inr new, c3)" by simp_all
  have new: "habit_id new = c2" by (rule Habit_init_counter(3) [OF n refl refl])
  have c12: "c1 \<le> c2" and seen2: "\<forall>h. Inr h \<in> set rs \<longrightarrow> habit_id h < c2"
    using constructor_calls_counter [OF cs] by simp_all
  have c01: "c0 \<le> c1" and seen1: "\<forall>h\<in>set (habits usr). habit_id h < c1"
    using User_from_dict_counter [OF u] by simp_all
  show s1: "\<forall>h\<in>set (habits usr). habit_id h < habit_id new"
    using seen1 c12 new by fastforce
  show "\<forall>h. Inr h \<in> set rs \<longrightarrow> habit_id h < habit_id new"
    using seen2 new by simp
  show "c0 \<le> habit_id new" using c01 c12 new by simp
  assume "\<exists>h\<in>set (habits usr). habit_id h = 7"
  then show "8 \<le> habit_id new" using s1 by fastforce
next
  assume a: "Habit_from_dict c0 today d = (Inr restored, c1)
      \<and> constructor_calls c1 today calls = (rs, c2)
      \<and> Habit_init c2 today nm pty cr None = (Inr new, c3)"
  then have u: "Habit_from_dict c0 today d = (Inr restored, c1)"
    and cs: "constructor_calls c1 today calls = (rs, c2)"
    and n: "Habit_init c2 today nm pty cr None = (Inr new, c3)" by simp_all
  have new: "habit_id new = c2" by (rule Habit_init_counter(3) [OF n refl refl])
  have c12: "c1 \<le> c2" using constructor_calls_counter [OF cs] by simp
  have r1: "habit_id restored < c1" by (rule Habit_from_dict_counter(2) [OF u refl])
  show d: "doc_habit_id d = Some (habit_id restored)"
    by (rule Habit_from_dict_counter(3) [OF u refl])
  show lt: "habit_id restored < habit_id new" using r1 c12 new by simp
  assume "doc_habit_id d = Some 7"
  with d lt show "8 \<le> habit_id new" by simp
qed

theorem fresh_identifier_above_restored_witness:
  "User_from_dict 0 0 user7_doc = (Inr \<lparr>user_id = 0, user_name = ''Ann'', habits = [habit7]\<rparr>, 8)
   \<and> Habit_from_dict 0 0 habit7_doc = (Inr habit7, 8)
   \<and> constructor_calls 8 0 [(''New'', [1, 1], Some 0, Some 3)] = ([Inr (fresh_habit 3)], 8)
   \<and> Habit_init 8 0 ''New'' [1, 1] None None = (Inr (fresh_habit 8), 9)
   \<and> 8 \<le> habit_id (fresh_habit 8)
   \<and> habit_id habit7 < habit_id (fresh_habit 8)"
proof -
  have h: "Habit_from_dict 0 0 habit7_doc = (Inr habit7, 8)"
    by (simp add: Habit_from_dict_def habit7_doc_def iso_2025 Habit_init_def habit7_def)
  have u: "User_from_dict 0 0 user7_doc
             = (Inr \<lparr>user_id = 0, user_name = ''Ann'', habits = [habit7]\<rparr>, 8)"
    by (simp add: User_from_dict_def user7_doc_def h)
  have c: "constructor_calls 8 0 [(''New'', [1, 1], Some 0, Some 3)] = ([Inr (fresh_habit 3)], 8)"
    by (simp add: Habit_init_def fresh_habit_def)
  have n: "Habit_init 8 0 ''New'' [1, 1] None None = (Inr (fresh_habit 8), 9)"
    by (simp add: Habit_init_def fresh_habit_def)
  have seven: "\<exists>g\<in>set (habits \<lparr>user_id = 0, user_name = ''Ann'', habits = [habit7]\<rparr>).
                 habit_id g = 7"
    by (simp add: habit7_def)
  have d7: "doc_habit_id habit7_doc = Some 7" by (simp add: habit7_doc_def)
  show ?thesis
    using fresh_identifier_above_restored [of 0 0 user7_doc
        "\<lparr>user_id = 0, user_name = ''Ann'', habits = [habit7]\<rparr>" 8
        "[(''New'', [1, 1], Some 0, Some 3)]" "[Inr (fresh_habit 3)]" 8 "''New''" "[1, 1]" None
        "fresh_habit 8" 9 habit7_doc habit7] h u c n seven d7
    by simp
qed

text \<open>
  Claim C7, as the code has it. \<^verbatim>\<open>Habit.__init__\<close> does not check the periodicity: for
  every frequency and period, zero and negative ones too, the habit is created with
  this frequency and period. The constructor fails only for a periodicity of fewer
  than two components, with an \<^verbatim>\<open>IndexError\<close>.
\<close>

theorem Habit_init_accepts_any_periodicity:
  "(\<exists>h c'. Habit_init c today nm [f, p] cr hid = (Inr h, c')
          \<and> frequency h = f \<and> period h = p \<and> periodicity h = [f, p])
   \<and> (\<exists>h. fst (Habit_init c today nm pty cr hid) = Inr h) = (2 \<le> length pty)
   \<and> (fst (Habit_init c today nm pty cr hid) = Inl IndexError) = (length pty < 2)"
  by (auto simp: Habit_init_def Let_def split: option.splits prod.splits)

theorem Habit_init_accepts_any_periodicity_counterexample:
  "Habit_init 0 0 ''Bad'' [0, -1] None None
     = (Inr \<lparr>habit_id = 0, name = ''Bad'', periodicity = [0, -1], frequency = 0, period = -1,
              history = [], streak = 0, longest_streak = 0, creation = 0\<rparr>, 1)"
  by (simp add: Habit_init_def)

theorem Habit_init_accepts_any_periodicity_witness:
  "(\<exists>h c'. Habit_init 5 0 ''Odd'' [-2, 0] None None = (Inr h, c')
          \<and> frequency h = -2 \<and> period h = 0 \<and> periodicity h = [-2, 0])
   \<and> fst (Habit_init 5 0 ''Odd'' [4] None None) = Inl IndexError"
  using Habit_init_accepts_any_periodicity [of 5 0 "''Odd''" "-2" 0 None None "[4]"]
  by simp

text \<open>
  Claim C9, as the code has it. \<^verbatim>\<open>analytics_longest_streak_for_habit\<close>: when no habit
  of the owner has the identifier, the result is \<^verbatim>\<open>None\<close> and the owner is unchanged.
  When \<open>h\<close> is the first habit with the identifier, the streak of \<open>h\<close> is recomputed
  (without reference time) in place: if the recomputation returns, the result is the
  longest streak of the recomputed habit; if it raises \<^verbatim>\<open>OverflowError\<close>, so does the
  call; if it never returns, as for a period of 0 days with a check-in at the anchor,
  neither does the call. The call returns for an empty history, and returns or raises
  for a frequency and a period of at least 1. A returned \<^verbatim>\<open>None\<close> means exactly that no
  habit has the identifier, so a longest streak of 0 is reported as the number 0.
\<close>

theorem analytics_longest_streak_for_habit_result:
  "((\<forall>h\<in>set (habits usr). habit_id h \<noteq> hid) \<longrightarrow>
       analytics_longest_streak_for_habit usr hid = Some (Inr (None, usr)))
   \<and> (habits usr = pre @ h # post \<and> (\<forall>g\<in>set pre. habit_id g \<noteq> hid) \<and> habit_id h = hid \<longrightarrow>
        analytics_longest_streak_for_habit usr hid
          = map_option (map_sum id
              (\<lambda>h'. (Some (longest_streak h'), usr\<lparr>habits := pre @ h' # post\<rparr>)))
              (update_streak h None)
        \<and> (\<forall>h'. update_streak h None = Some (Inr h') \<longrightarrow>
              analytics_longest_streak_for_habit usr hid
                = Some (Inr (Some (longest_streak h'), usr\<lparr>habits := pre @ h' # post\<rparr>)))
        \<and> (\<forall>e. update_streak h None = Some (Inl e) \<longrightarrow>
              analytics_longest_streak_for_habit usr hid = Some (Inl e))
        \<and> (update_streak h None = None \<longrightarrow>
              analytics_longest_streak_for_habit usr hid = None)
        \<and> (history h = [] \<longrightarrow>
              analytics_longest_streak_for_habit usr hid
                = Some (Inr (Some (longest_streak h),
                             usr\<lparr>habits := pre @ h\<lparr>streak := 0\<rparr> # post\<rparr>)))
        \<and> (1 \<le> frequency h \<and> 1 \<le> period h \<longrightarrow>
              (\<exists>r. analytics_longest_streak_for_habit usr hid = Some r)))
   \<and> (analytics_longest_streak_for_habit usr hid = Some (Inr (r, usr')) \<longrightarrow>
        (r = None) = (\<forall>h\<in>set (habits usr). habit_id h \<noteq> hid))"
proof (intro conjI impI allI)
  assume nf: "\<forall>h\<in>set (habits usr). habit_id h \<noteq> hid"
  show "analytics_longest_streak_for_habit usr hid = Some (Inr (None, usr))"
    by (simp add: analytics_longest_streak_for_habit_def longest_streak_in_not_found [OF nf])
next
  assume a: "habits usr = pre @ h # post \<and> (\<forall>g\<in>set pre. habit_id g \<noteq> hid) \<and> habit_id h = hid"
  then have sp: "habits usr = pre @ h # post" "\<forall>g\<in>set pre. habit_id g \<noteq> hid" "habit_id h = hid"
    by simp_all
  show eq: "analytics_longest_streak_for_habit usr hid
          = map_option (map_sum id
              (\<lambda>h'. (Some (longest_streak h'), usr\<lparr>habits := pre @ h' # post\<rparr>)))
              (update_streak h None)"
    by (rule analytics_found [OF sp])
  show "analytics_longest_streak_for_habit usr hid
          = Some (Inr (Some (longest_streak h'), usr\<lparr>habits := pre @ h' # post\<rparr>))"
    if "update_streak h None = Some (Inr h')" for h'
    using that by (simp add: eq)
  show "analytics_longest_streak_for_habit usr hid = Some (Inl e)"
    if "update_streak h None = Some (Inl e)" for e
    using that by (simp add: eq)
  show "analytics_longest_streak_for_habit usr hid = None"
    if "update_streak h None = None"
    using that by (simp add: eq)
  show "analytics_longest_streak_for_habit usr hid
          = Some (Inr (Some (longest_streak h), usr\<lparr>habits := pre @ h\<lparr>streak := 0\<rparr> # post\<rparr>))"
    if "history h = []"
    using that by (simp add: eq update_streak_def)
  show "\<exists>r. analytics_longest_streak_for_habit usr hid = Some r"
    if fp: "1 \<le> frequency h \<and> 1 \<le> period h"
  proof -
    obtain r where "update_streak h None = Some r"
      using update_streak_returns [of h None] fp by blast
    then show ?thesis by (simp add: eq)
  qed
next
  assume "analytics_longest_streak_for_habit usr hid = Some (Inr (r, usr'))"
  then show "(r = None) = (\<forall>h\<in>set (habits usr). habit_id h \<noteq> hid)"
    by (rule analytics_signal)
qed

theorem analytics_longest_streak_for_habit_result_counterexample:
  "map habit_id (habits zero_period_user) = [4]
   \<and> analytics_longest_streak_for_habit zero_period_user 4 = None
   \<and> map habit_id (habits first_days_user) = [0]
   \<and> analytics_longest_streak_for_habit first_days_user 0 = Some (Inl OverflowError)"
proof -
  have z: "analytics_longest_streak_for_habit zero_period_user 4 = None"
    using zero_period_update_streak
    by (simp add: analytics_longest_streak_for_habit_def zero_period_user_def zero_period_def)
  have f: "analytics_longest_streak_for_habit first_days_user 0 = Some (Inl OverflowError)"
    using first_days_overflow
    by (simp add: analytics_longest_streak_for_habit_def first_days_user_def first_days_def)
  show ?thesis
    using z f
    by (simp add: zero_period_user_def zero_period_def first_days_user_def first_days_def)
qed

theorem analytics_longest_streak_for_habit_result_witness:
  "analytics_longest_streak_for_habit test_user 7 = Some (Inr (None, test_user))
   \<and> analytics_longest_streak_for_habit test_user 0
       = Some (Inr (Some 3, test_user\<lparr>habits :=
                 [no_checkins, three_days\<lparr>streak := 3, longest_streak := 3\<rparr>]\<rparr>))
   \<and> analytics_longest_streak_for_habit test_user 1
       = Some (Inr (Some 9, test_user\<lparr>habits := [no_checkins\<lparr>streak := 0\<rparr>, three_days]\<rparr>))"
proof -
  have nf: "\<forall>h\<in>set (habits test_user). habit_id h \<noteq> 7"
    by (simp add: test_user_def no_checkins_def three_days_def)
  have f0: "habits test_user = [no_checkins] @ three_days # []
            \<and> (\<forall>g\<in>set [no_checkins]. habit_id g \<noteq> 0) \<and> habit_id three_days = 0"
    by (simp add: test_user_def no_checkins_def three_days_def)
  have f1: "habits test_user = [] @ no_checkins # [three_days]
            \<and> (\<forall>g\<in>set []. habit_id g \<noteq> 1) \<and> habit_id no_checkins = 1"
    by (simp add: test_user_def no_checkins_def three_days_def)
  have u0: "update_streak three_days None
              = Some (Inr (three_days\<lparr>streak := 3, longest_streak := 3\<rparr>))"
    by (rule three_days_streak) simp
  have e1: "history no_checkins = []" by (simp add: no_checkins_def)
  have l1: "longest_streak no_checkins = 9" by (simp add: no_checkins_def)
  have l0: "longest_streak three_days = 0" by (simp add: three_days_def)
  have a7: "analytics_longest_streak_for_habit test_user 7 = Some (Inr (None, test_user))"
    using analytics_longest_streak_for_habit_result [of test_user 7] nf by blast
  have a0: "analytics_longest_streak_for_habit test_user 0
       = Some (Inr (Some (longest_streak (three_days\<lparr>streak := 3, longest_streak := 3\<rparr>)),
                    test_user\<lparr>habits :=
                      [no_checkins] @ three_days\<lparr>streak := 3, longest_streak := 3\<rparr> # []\<rparr>))"
    using analytics_longest_streak_for_habit_result
             [of test_user 0 "[no_checkins]" three_days "[]"] f0 u0
    by blast
  have a1: "analytics_longest_streak_for_habit test_user 1
       = Some (Inr (Some (longest_streak no_checkins),
                    test_user\<lparr>habits := [] @ no_checkins\<lparr>streak := 0\<rparr> # [three_days]\<rparr>))"
    using analytics_longest_streak_for_habit_result
             [of test_user 1 "[]" no_checkins "[three_days]"] f1 e1
    by blast
  show ?thesis using a7 a0 a1 by (simp add: l1)
qed

section \<open>The claim about persistence\<close>

text \<open>
  Claim C5. For every owner whose habits are habit objects (a periodicity of at least
  two components, timestamps within the range of \<^verbatim>\<open>datetime\<close>), \<^verbatim>\<open>User.from_dict\<close> of
  \<^verbatim>\<open>User.to_dict\<close> succeeds and gives an owner with the same name and identifier and
  the same number of habits, each with the same identifier, name, periodicity, history
  (timestamp for timestamp, through their ISO texts), streak, longest streak and
  creation time; \<^verbatim>\<open>frequency\<close> and \<^verbatim>\<open>period\<close> are set again from the periodicity, so
  the owner is the very same when they were its first two components. The same holds
  for each habit through \<^verbatim>\<open>Habit.from_dict\<close> of \<^verbatim>\<open>Habit.to_dict\<close>.
\<close>

theorem serialization_round_trip:
  "list_all valid_habit (habits usr) \<Longrightarrow>
     (\<exists>usr' c'. User_from_dict c today (User_to_dict usr) = (Inr usr', c')
        \<and> user_name usr' = user_name usr
        \<and> user_id usr' = user_id usr
        \<and> length (habits usr') = length (habits usr)
        \<and> map habit_id (habits usr') = map habit_id (habits usr)
        \<and> map name (habits usr') = map name (habits usr)
        \<and> map periodicity (habits usr') = map periodicity (habits usr)
        \<and> map history (habits usr') = map history (habits usr)
        \<and> map streak (habits usr') = map streak (habits usr)
        \<and> map longest_streak (habits usr') = map longest_streak (habits usr)
        \<and> map creation (habits usr') = map creation (habits usr)
        \<and> habits usr' = map from_periodicity (habits usr)
        \<and> (list_all (\<lambda>h. frequency h = periodicity h ! 0 \<and> period h = periodicity h ! 1)
              (habits usr) \<longrightarrow> usr' = usr))
     \<and> list_all (\<lambda>h. fst (Habit_from_dict c today (Habit_to_dict h)) = Inr (from_periodicity h))
          (habits usr)"
proof -
  assume v: "list_all valid_habit (habits usr)"
  let ?u = "usr\<lparr>habits := map from_periodicity (habits usr)\<rparr>"
  have rt: "User_from_dict c today (User_to_dict usr)
              = (Inr ?u, fold advance_counter (habits usr) c)"
    by (rule User_round_trip [OF v])
  have same: "list_all (\<lambda>h. frequency h = periodicity h ! 0 \<and> period h = periodicity h ! 1)
              (habits usr) \<longrightarrow> ?u = usr"
  proof
    assume "list_all (\<lambda>h. frequency h = periodicity h ! 0 \<and> period h = periodicity h ! 1)
              (habits usr)"
    then have "map from_periodicity (habits usr) = habits usr"
      by (simp add: list_all_iff from_periodicity_id map_idI)
    then show "?u = usr" by simp
  qed
  have fields: "user_name ?u = user_name usr \<and> user_id ?u = user_id usr
        \<and> length (habits ?u) = length (habits usr)
        \<and> map habit_id (habits ?u) = map habit_id (habits usr)
        \<and> map name (habits ?u) = map name (habits usr)
        \<and> map periodicity (habits ?u) = map periodicity (habits usr)
        \<and> map history (habits ?u) = map history (habits usr)
        \<and> map streak (habits ?u) = map streak (habits usr)
        \<and> map longest_streak (habits ?u) = map longest_streak (habits usr)
        \<and> map creation (habits ?u) = map creation (habits usr)
        \<and> habits ?u = map from_periodicity (habits usr)"
    by (simp add: comp_def from_periodicity_fields)
  have each: "list_all (\<lambda>h. fst (Habit_from_dict c today (Habit_to_dict h))
                              = Inr (from_periodicity h)) (habits usr)"
    using v by (simp add: list_all_iff Habit_round_trip)
  show ?thesis using rt same fields each by blast
qed

theorem serialization_round_trip_witness:
  "list_all valid_habit (habits owner7)
   \<and> User_to_dict owner7 = user7_doc
   \<and> (\<exists>c'. User_from_dict 0 0 (User_to_dict owner7) = (Inr owner7, c'))
   \<and> fst (Habit_from_dict 0 0 (Habit_to_dict habit7)) = Inr habit7"
proof -
  have v: "list_all valid_habit (habits owner7)"
    by (simp add: owner7_def habit7_def valid_habit_def valid_datetime_def MAXORDINAL_def
          us_per_day_def)
  have iso: "datetime_to_str 63871329600000000 = ''2025-01-01T12:00:00''"
    by code_simp
  have doc: "User_to_dict owner7 = user7_doc"
    by (simp add: User_to_dict_def Habit_to_dict_def owner7_def habit7_def user7_doc_def
          habit7_doc_def iso)
  have c: "list_all (\<lambda>h. frequency h = periodicity h ! 0 \<and> period h = periodicity h ! 1)
             (habits owner7)"
    by (simp add: owner7_def habit7_def)
  have f: "from_periodicity habit7 = habit7"
    by (simp add: from_periodicity_def habit7_def)
  have h: "habits owner7 = [habit7]" by (simp add: owner7_def)
  show ?thesis
    using serialization_round_trip [OF v, of 0 0] v doc c
    by (auto simp: h f)
qed

end
